theory Spec2Isabelle
  imports Complex_Main "HOL-Library.AList"
begin

section \<open>JavaScript values shared by the services\<close>

text \<open>
  Instants are the millisecond counts of a JavaScript \<^verbatim>\<open>Date\<close> (\<^verbatim>\<open>getTime()\<close>,
  \<^verbatim>\<open>Date.now()\<close>), read on the server's local time line: the zone is taken to have a fixed
  offset, so local midnight is a multiple of 86400000 and adding a calendar day adds
  86400000. Day 0 of that time line is Thursday, 1 January 1970.

  A JavaScript \<^verbatim>\<open>Map\<close> keeps its entries in insertion order: it is an association list,
  read with \<^const>\<open>map_of\<close>, written with \<^const>\<open>AList.update\<close> (an existing key keeps its
  place, a new one goes last) and \<^const>\<open>AList.delete\<close>.
\<close>

type_synonym instant = int

definition minute_ms :: int where "minute_ms = 60000"
definition hour_ms :: int where "hour_ms = 3600000"
definition day_ms :: int where "day_ms = 86400000"

definition getHours :: "instant \<Rightarrow> int" where
  "getHours d = (d mod day_ms) div hour_ms"

definition getMinutes :: "instant \<Rightarrow> int" where
  "getMinutes d = (d mod hour_ms) div minute_ms"

definition getDay :: "instant \<Rightarrow> int" where
  \<comment> \<open>0 is Sunday\<close>
  "getDay d = (d div day_ms + 4) mod 7"

definition setHours :: "instant \<Rightarrow> int \<Rightarrow> int \<Rightarrow> int \<Rightarrow> int \<Rightarrow> instant" where
  \<comment> \<open>\<^verbatim>\<open>date.setHours(h, m, s, ms)\<close>: the same local day, values past their range carry over\<close>
  "setHours d h m s ms = d - d mod day_ms + h * hour_ms + m * minute_ms + s * 1000 + ms"

definition addDays :: "instant \<Rightarrow> int \<Rightarrow> instant" where
  \<comment> \<open>\<^verbatim>\<open>date.setDate(date.getDate() + n)\<close>\<close>
  "addDays d n = d + n * day_ms"

text \<open>The civil calendar behind \<^verbatim>\<open>getDate()\<close> and \<^verbatim>\<open>setMonth()\<close> (proleptic Gregorian).\<close>

definition civil_from_days :: "int \<Rightarrow> int \<times> int \<times> int" where
  \<comment> \<open>day number to (year, month 1..12, day of month)\<close>
  "civil_from_days z0 =
     (let z = z0 + 719468;
          era = z div 146097;
          doe = z - era * 146097;
          yoe = (doe - doe div 1460 + doe div 36524 - doe div 146096) div 365;
          y = yoe + era * 400;
          doy = doe - (365 * yoe + yoe div 4 - yoe div 100);
          mp = (5 * doy + 2) div 153;
          d = doy - (153 * mp + 2) div 5 + 1;
          m = (if mp < 10 then mp + 3 else mp - 9)
      in (if m \<le> 2 then y + 1 else y, m, d))"

definition days_from_civil :: "int \<Rightarrow> int \<Rightarrow> int \<Rightarrow> int" where
  "days_from_civil y0 m d =
     (let y = (if m \<le> 2 then y0 - 1 else y0);
          era = y div 400;
          yoe = y - era * 400;
          doy = (153 * (if m > 2 then m - 3 else m + 9) + 2) div 5 + d - 1;
          doe = yoe * 365 + yoe div 4 - yoe div 100 + doy
      in era * 146097 + doe - 719468)"

definition getDate :: "instant \<Rightarrow> int" where
  "getDate d = snd (snd (civil_from_days (d div day_ms)))"

definition addMonths :: "instant \<Rightarrow> int \<Rightarrow> instant" where
  \<comment> \<open>\<^verbatim>\<open>date.setMonth(date.getMonth() + n)\<close>: a month past December carries into the year, a
      day past the month's end carries into the next month\<close>
  "addMonths t n =
     (case civil_from_days (t div day_ms) of
        (y, m, d) \<Rightarrow>
          (let mi = m - 1 + n
           in (days_from_civil (y + mi div 12) (mi mod 12 + 1) 1 + (d - 1)) * day_ms + t mod day_ms))"

text \<open>
  What the runtime's locale and date library computes is not part of the repository: the
  renderings of \<^verbatim>\<open>toLocaleDateString\<close> / \<^verbatim>\<open>toLocaleTimeString\<close> and the free-form parser
  \<^verbatim>\<open>new Date(string)\<close> (\<^const>\<open>None\<close> is an invalid date) are parameters.
\<close>

record platform =
  parseDate :: "string \<Rightarrow> instant option"
  formatShort :: "instant \<Rightarrow> string"
  formatClock :: "instant \<Rightarrow> string"
  formatLong :: "instant \<Rightarrow> string"

text \<open>
  An \<^verbatim>\<open>async\<close> function hands its caller a promise of the value it returns. \<^verbatim>\<open>await\<close>
  takes the value out; reading a property such as \<^verbatim>\<open>.available\<close> off the promise itself
  finds none and yields \<^verbatim>\<open>undefined\<close>, which a condition takes as false.
\<close>

datatype 'a promise = Promise 'a

fun await :: "'a promise \<Rightarrow> 'a" where
  "await (Promise v) = v"

definition promise_available :: "'a promise \<Rightarrow> bool" where
  "promise_available p = False"

section \<open>AppointmentSlotManager\<close>

datatype booking =
    Reserved (sessionId: string) (expiresAt: instant) (date: instant)
  | Confirmed (sessionId: string) (date: instant) (confirmedAt: instant)

text \<open>
  \<^verbatim>\<open>bookedSlots\<close>. A slot key is the ISO string of the instant rounded down to its half hour;
  the model keeps the rounded instant, which that string renders one to one. Likewise
  \<^verbatim>\<open>booking.date\<close>, an ISO string read back with \<^verbatim>\<open>new Date\<close>, is kept as the instant.
\<close>

type_synonym slot_key = instant
type_synonym booked_slots = "(slot_key \<times> booking) list"

datatype day_hours =
    ClosedDay
  | OpenDay (opens: "int \<times> int") (closes: "int \<times> int") (breaks: "((int \<times> int) \<times> (int \<times> int)) list")

definition businessHours :: "int \<Rightarrow> day_hours" where
  \<comment> \<open>by \<^const>\<open>getDay\<close> index; the times are the source's \<^verbatim>\<open>'HH:MM'\<close> strings as (hours, minutes)\<close>
  "businessHours day =
     (if day = 1 \<or> day = 2 \<or> day = 3 \<or> day = 4 then OpenDay (9, 0) (18, 0) [((12, 0), (13, 0))]
      else if day = 5 then OpenDay (9, 0) (17, 0) [((12, 0), (13, 0))]
      else if day = 6 then OpenDay (10, 0) (14, 0) []
      else ClosedDay)"

definition slotDuration :: int where "slotDuration = 30"
definition bufferTime :: int where "bufferTime = 10"

definition getDayName :: "instant \<Rightarrow> int" where
  "getDayName d = getDay d"

definition getTimeString :: "instant \<Rightarrow> int \<times> int" where
  "getTimeString d = (getHours d, getMinutes d)"

definition timeToMinutes :: "int \<times> int \<Rightarrow> int" where
  "timeToMinutes timeStr = fst timeStr * 60 + snd timeStr"

definition isBusinessHour :: "int \<Rightarrow> int \<times> int \<Rightarrow> bool" where
  "isBusinessHour dayName timeStr =
     (case businessHours dayName of
        ClosedDay \<Rightarrow> False
      | OpenDay op cl brs \<Rightarrow>
          (let requestedMinutes = timeToMinutes timeStr
           in if requestedMinutes < timeToMinutes op \<or> requestedMinutes \<ge> timeToMinutes cl then False
              else \<not> (\<exists>br \<in> set brs.
                     requestedMinutes \<ge> timeToMinutes (fst br) \<and> requestedMinutes < timeToMinutes (snd br))))"

definition getSlotKey :: "instant \<Rightarrow> slot_key" where
  \<comment> \<open>minutes rounded down to 0 or 30, seconds and milliseconds cleared\<close>
  "getSlotKey d = d - d mod (30 * minute_ms)"

definition isSlotBooked :: "instant \<Rightarrow> booked_slots \<Rightarrow> slot_key \<Rightarrow> bool \<times> booked_slots" where
  \<comment> \<open>the answer, and the map after the lazy removal of an expired reservation\<close>
  "isSlotBooked now bs slotKey =
     (case map_of bs slotKey of
        None \<Rightarrow> (False, bs)
      | Some (Reserved s e d) \<Rightarrow> if e < now then (False, AList.delete slotKey bs) else (True, bs)
      | Some (Confirmed s d c) \<Rightarrow> (True, bs))"

definition hasConflictWithBuffer :: "booked_slots \<Rightarrow> instant \<Rightarrow> bool" where
  \<comment> \<open>every stored entry is of type \<^verbatim>\<open>'confirmed'\<close> or \<^verbatim>\<open>'reserved'\<close>, so the type test passes\<close>
  "hasConflictWithBuffer bs d =
     (let checkStart = d - bufferTime * minute_ms;
          checkEnd = d + (slotDuration + bufferTime) * minute_ms
      in \<exists>(key, booking) \<in> set bs.
           (let bookedDate = date booking;
                bookedEnd = bookedDate + slotDuration * minute_ms
            in checkStart < bookedEnd \<and> checkEnd > bookedDate))"

definition getDailyAppointmentCount :: "booked_slots \<Rightarrow> instant \<Rightarrow> nat" where
  "getDailyAppointmentCount bs d =
     (let dayStart = setHours d 0 0 0 0;
          dayEnd = setHours d 23 59 59 999
      in length (filter (\<lambda>(key, booking). date booking \<ge> dayStart \<and> date booking \<le> dayEnd) bs))"

definition assignVeterinarian :: "instant \<Rightarrow> string" where
  "assignVeterinarian d = [''Dr. Smith'', ''Dr. Johnson'', ''Dr. Williams''] ! nat (getDate d mod 3)"


record slot =
  slot_date :: instant
  displayTime :: string
  offsetFromRequested :: "int option"

datatype reason = outside_business_hours | slot_taken | too_close_to_existing | day_fully_booked

record slotDetails =
  details_date :: instant
  duration :: int
  veterinarian :: string

datatype availability =
    Unavailable (reason: reason) (av_message: string) (suggestedSlots: "slot list")
  | Available (details: slotDetails)

fun available :: "availability \<Rightarrow> bool" where
  "available (Unavailable r m s) = False"
| "available (Available d) = True"

definition formatDisplayTime :: "platform \<Rightarrow> instant \<Rightarrow> instant \<Rightarrow> string" where
  "formatDisplayTime pf now d =
     (let formatted = formatShort pf d;
          diffDays = (d - now) div day_ms
      in if diffDays = 0 then ''Today at '' @ formatClock pf d
         else if diffDays = 1 then ''Tomorrow at '' @ formatClock pf d
         else formatted)"

definition dayLabel :: "int \<Rightarrow> string" where
  "dayLabel day = [''Sunday'', ''Monday'', ''Tuesday'', ''Wednesday'', ''Thursday'', ''Friday'',
     ''Saturday''] ! nat day"

definition showTime :: "int \<times> int \<Rightarrow> string" where
  \<comment> \<open>the \<^verbatim>\<open>'HH:MM'\<close> string of the business-hours table\<close>
  "showTime t = [char_of (48 + fst t div 10), char_of (48 + fst t mod 10), CHR '':'',
     char_of (48 + snd t div 10), char_of (48 + snd t mod 10)]"

definition getSuggestedTimes :: "instant \<Rightarrow> string" where
  "getSuggestedTimes d =
     (let ours = (case businessHours (getDayName d) of
                    ClosedDay \<Rightarrow> ''Our hours are undefined to undefined on '' @ dayLabel (getDayName d) @ ''s.''
                  | OpenDay op cl brs \<Rightarrow>
                      ''Our hours are '' @ showTime op @ '' to '' @ showTime cl @ '' on ''
                        @ dayLabel (getDayName d) @ ''s.'')
      in case businessHours (getDayName d) of
           OpenDay op cl brs \<Rightarrow> ours
         | ClosedDay \<Rightarrow>
             (case filter (\<lambda>i. businessHours (getDayName (addDays d i)) \<noteq> ClosedDay) [1, 2, 3, 4, 5, 6, 7] of
                [] \<Rightarrow> ours
              | i # rest \<Rightarrow>
                  (case businessHours (getDayName (addDays d i)) of
                     ClosedDay \<Rightarrow> ours
                   | OpenDay op cl brs \<Rightarrow>
                       ''We're open '' @ dayLabel (getDayName (addDays d i)) @ '' from '' @ showTime op
                         @ '' to '' @ showTime cl @ ''.'')))"

definition searchOffsets :: "int list" where
  "searchOffsets = [30, -30, 60, -60, 90, -90, 120, -120, 24 * 60, - (24 * 60), 48 * 60, - (48 * 60)]"

text \<open>
  \<^verbatim>\<open>checkAvailability\<close> is declared \<^verbatim>\<open>async\<close>; its body has no \<^verbatim>\<open>await\<close>, so it runs to its
  \<^verbatim>\<open>return\<close> when called and the caller holds a promise. The two suggestion loops call it
  without \<^verbatim>\<open>await\<close> and test \<^verbatim>\<open>availability.available\<close> on the promise. The loop of
  \<^verbatim>\<open>getNextAvailableSlots\<close> has no bound, and the three functions call each other: the first
  argument is fuel, one unit per call of \<^verbatim>\<open>checkAvailability\<close> and per round of the
  \<^verbatim>\<open>while\<close> loop, and \<^const>\<open>None\<close> says the fuel ran out before the call returned. A
  call that is \<^const>\<open>None\<close> for every fuel is one whose chain of loops and nested calls has
  no end.
\<close>

function (sequential) checkAvailability ::
    "nat \<Rightarrow> platform \<Rightarrow> instant \<Rightarrow> booked_slots \<Rightarrow> instant \<Rightarrow> (availability promise \<times> booked_slots) option"
  and getNearbyAvailableSlots_loop ::
    "nat \<Rightarrow> platform \<Rightarrow> instant \<Rightarrow> booked_slots \<Rightarrow> instant \<Rightarrow> nat \<Rightarrow> int list \<Rightarrow> slot list
       \<Rightarrow> (slot list \<times> booked_slots) option"
  and getNextAvailableSlots_loop ::
    "nat \<Rightarrow> platform \<Rightarrow> instant \<Rightarrow> booked_slots \<Rightarrow> instant \<Rightarrow> nat \<Rightarrow> slot list
       \<Rightarrow> (slot list \<times> booked_slots) option"
where
  "checkAvailability 0 pf now bs requestedDate = None"
| "checkAvailability (Suc fuel) pf now bs requestedDate =
     (if \<not> isBusinessHour (getDayName requestedDate) (getTimeString requestedDate) then
        (case getNextAvailableSlots_loop fuel pf now bs requestedDate 3 [] of
           None \<Rightarrow> None
         | Some (slots, bs') \<Rightarrow>
             Some (Promise (Unavailable outside_business_hours
                     (''We're closed at that time. '' @ getSuggestedTimes requestedDate) slots), bs'))
      else
        (let (booked, bs1) = isSlotBooked now bs (getSlotKey requestedDate)
         in if booked then
              (case getNearbyAvailableSlots_loop fuel pf now bs1 requestedDate 3 searchOffsets [] of
                 None \<Rightarrow> None
               | Some (slots, bs') \<Rightarrow>
                   Some (Promise (Unavailable slot_taken ''That time slot is already booked.'' slots), bs'))
            else if hasConflictWithBuffer bs1 requestedDate then
              (case getNearbyAvailableSlots_loop fuel pf now bs1 requestedDate 3 searchOffsets [] of
                 None \<Rightarrow> None
               | Some (slots, bs') \<Rightarrow>
                   Some (Promise (Unavailable too_close_to_existing
                           ''This time is too close to another appointment.'' slots), bs'))
            else if getDailyAppointmentCount bs1 requestedDate \<ge> 20 then
              (case getNextAvailableSlots_loop fuel pf now bs1
                      (setHours (addDays requestedDate 1) 9 0 0 0) 3 [] of
                 None \<Rightarrow> None
               | Some (slots, bs') \<Rightarrow>
                   Some (Promise (Unavailable day_fully_booked ''We're fully booked for that day.'' slots), bs'))
            else
              Some (Promise (Available \<lparr>details_date = requestedDate, duration = slotDuration,
                      veterinarian = assignVeterinarian requestedDate\<rparr>), bs1)))"
| "getNearbyAvailableSlots_loop fuel pf now bs baseDate count [] slots = Some (slots, bs)"
| "getNearbyAvailableSlots_loop fuel pf now bs baseDate count (offsetMinutes # rest) slots =
     (if length slots \<ge> count then Some (slots, bs)
      else
        (let testDate = baseDate + offsetMinutes * 60000
         in case checkAvailability fuel pf now bs testDate of
              None \<Rightarrow> None
            | Some (availability, bs') \<Rightarrow>
                getNearbyAvailableSlots_loop fuel pf now bs' baseDate count rest
                  (if promise_available availability
                   then slots @ [\<lparr>slot_date = testDate, displayTime = formatDisplayTime pf now testDate,
                                  offsetFromRequested = Some offsetMinutes\<rparr>]
                   else slots)))"
| "getNextAvailableSlots_loop fuel pf now bs testDate0 count slots =
     (if \<not> length slots < count then Some (slots, bs)
      else
        (case fuel of
           0 \<Rightarrow> None
         | Suc fuel' \<Rightarrow>
             (let testDate1 = testDate0 + 30 * minute_ms;
                  testDate = (if getHours testDate1 \<ge> 18 then setHours (addDays testDate1 1) 9 0 0 0
                              else testDate1)
              in case checkAvailability fuel' pf now bs testDate of
                   None \<Rightarrow> None
                 | Some (availability, bs') \<Rightarrow>
                     getNextAvailableSlots_loop fuel' pf now bs' testDate count
                       (if promise_available availability
                        then slots @ [\<lparr>slot_date = testDate, displayTime = formatDisplayTime pf now testDate,
                                       offsetFromRequested = None\<rparr>]
                        else slots))))"

  by pat_completeness auto
termination
  by (relation "measures
        [\<lambda>x. case x of Inl (f, r) \<Rightarrow> f | Inr (Inl (f, r)) \<Rightarrow> f | Inr (Inr (f, r)) \<Rightarrow> f,
         \<lambda>x. case x of Inl r \<Rightarrow> 0
                   | Inr (Inl (f, pf, now, bs, b, c, offs, sl)) \<Rightarrow> Suc (length offs)
                   | Inr (Inr r) \<Rightarrow> 0]")
     simp_all

definition getNearbyAvailableSlots ::
    "nat \<Rightarrow> platform \<Rightarrow> instant \<Rightarrow> booked_slots \<Rightarrow> instant \<Rightarrow> nat \<Rightarrow> (slot list \<times> booked_slots) option" where
  "getNearbyAvailableSlots fuel pf now bs requestedDate count =
     getNearbyAvailableSlots_loop fuel pf now bs requestedDate count searchOffsets []"

definition getNextAvailableSlots ::
    "nat \<Rightarrow> platform \<Rightarrow> instant \<Rightarrow> booked_slots \<Rightarrow> instant \<Rightarrow> nat \<Rightarrow> (slot list \<times> booked_slots) option" where
  "getNextAvailableSlots fuel pf now bs d count = getNextAvailableSlots_loop fuel pf now bs d count []"

definition getNextDaySlots ::
    "nat \<Rightarrow> platform \<Rightarrow> instant \<Rightarrow> booked_slots \<Rightarrow> instant \<Rightarrow> (slot list \<times> booked_slots) option" where
  "getNextDaySlots fuel pf now bs d = getNextAvailableSlots fuel pf now bs (setHours (addDays d 1) 9 0 0 0) 3"

datatype error = InvalidReservation | PersistenceFailure | GenerationFailure

type_synonym timer = "instant \<times> slot_key \<times> string"

definition reserveSlot :: "instant \<Rightarrow> booked_slots \<Rightarrow> instant \<Rightarrow> string \<Rightarrow> slot_key \<times> booked_slots \<times> timer" where
  \<comment> \<open>the key, the map, and the release scheduled with \<^verbatim>\<open>setTimeout\<close>\<close>
  "reserveSlot now bs d sid =
     (let slotKey = getSlotKey d
      in (slotKey,
          AList.update slotKey (Reserved sid (now + 5 * 60 * 1000) d) bs,
          (now + 5 * 60 * 1000, slotKey, sid)))"

definition confirmReservation :: "instant \<Rightarrow> booked_slots \<Rightarrow> slot_key \<Rightarrow> string \<Rightarrow> error + booked_slots" where
  "confirmReservation now bs slotKey sid =
     (case map_of bs slotKey of
        None \<Rightarrow> Inl InvalidReservation
      | Some reservation \<Rightarrow>
          if sessionId reservation \<noteq> sid then Inl InvalidReservation
          else Inr (AList.update slotKey (Confirmed sid (date reservation) now) bs))"

definition releaseReservation :: "booked_slots \<Rightarrow> slot_key \<Rightarrow> string \<Rightarrow> booked_slots" where
  "releaseReservation bs slotKey sid =
     (case map_of bs slotKey of
        Some (Reserved s e d) \<Rightarrow> if s = sid then AList.delete slotKey bs else bs
      | _ \<Rightarrow> bs)"

definition fireTimer :: "booked_slots \<Rightarrow> timer \<Rightarrow> booked_slots" where
  \<comment> \<open>the callback \<^verbatim>\<open>reserveSlot\<close> schedules\<close>
  "fireTimer bs tm = releaseReservation bs (fst (snd tm)) (snd (snd tm))"

definition cleanup_removes :: "instant \<Rightarrow> booking \<Rightarrow> bool" where
  \<comment> \<open>the two tests of the hourly sweep on one entry\<close>
  "cleanup_removes now booking =
     (date booking < now - 24 * 60 * 60 * 1000
      \<or> (case booking of Reserved s e d \<Rightarrow> e < now | Confirmed s d c \<Rightarrow> False))"

definition cleanupSweep :: "instant \<Rightarrow> booked_slots \<Rightarrow> booked_slots" where
  \<comment> \<open>the callback of \<^verbatim>\<open>startCleanupInterval\<close>\<close>
  "cleanupSweep now bs = filter (\<lambda>(key, booking). \<not> cleanup_removes now booking) bs"

declare checkAvailability.simps [simp del]
declare getNearbyAvailableSlots_loop.simps [simp del]
declare getNextAvailableSlots_loop.simps [simp del]

text \<open>
  Vocabulary of the statements below: an entry is live when it is confirmed or a
  reservation that \<^const>\<open>isSlotBooked\<close> would not yet drop, and \<^term>\<open>plainPlatform\<close> is a runtime
  whose renderings are empty, for the closed examples.
\<close>

definition live :: "instant \<Rightarrow> booking \<Rightarrow> bool" where
  "live now b = (case b of Reserved s e d \<Rightarrow> \<not> e < now | Confirmed s d c \<Rightarrow> True)"

definition plainPlatform :: platform where
  "plainPlatform = \<lparr>parseDate = (\<lambda>s. None), formatShort = (\<lambda>t. []), formatClock = (\<lambda>t. []),
     formatLong = (\<lambda>t. [])\<rparr>"

definition keeps_confirmed :: "booked_slots \<Rightarrow> booked_slots \<Rightarrow> bool" where
  \<comment> \<open>every confirmed booking of the first map is still confirmed, for the same session and
      date, in the second\<close>
  "keeps_confirmed bs bs' =
     (\<forall>k s d c. map_of bs k = Some (Confirmed s d c) \<longrightarrow> (\<exists>c'. map_of bs' k = Some (Confirmed s d c')))"

definition slots_step :: "booked_slots \<Rightarrow> booked_slots \<Rightarrow> bool" where
  \<comment> \<open>one entry per key stays one entry per key, and confirmed bookings stay\<close>
  "slots_step bs bs' = ((distinct (map fst bs) \<longrightarrow> distinct (map fst bs')) \<and> keeps_confirmed bs bs')"

section \<open>CacheService\<close>

record 'v entry =
  "value" :: 'v
  timestamp :: instant
  ttl :: int
  hits :: int
  lastAccessed :: instant

record stats =
  stat_hits :: nat
  stat_misses :: nat
  stat_evictions :: nat
  stat_apiCalls :: nat
  stat_savedApiCalls :: nat

text \<open>\<^verbatim>\<open>this.layers\<close> (the hot map \<^verbatim>\<open>l1\<close>, the warm map \<^verbatim>\<open>l2\<close>) and \<^verbatim>\<open>this.stats\<close>.\<close>

record 'v cache =
  l1 :: "(string \<times> 'v entry) list"
  l2 :: "(string \<times> 'v entry) list"
  stats :: stats

definition l1MaxSize :: nat where "l1MaxSize = 100"
definition l2MaxSize :: nat where "l2MaxSize = 500"
definition config_ttl :: int where "config_ttl = 3600000"

definition isExpired :: "instant \<Rightarrow> 'v entry \<Rightarrow> bool" where
  "isExpired now e = (now - timestamp e > ttl e)"

definition checkLayers :: "instant \<Rightarrow> 'v cache \<Rightarrow> string \<Rightarrow> 'v entry option \<times> 'v cache" where
  \<comment> \<open>the entry found is counted and stamped in place, in the map that holds it\<close>
  "checkLayers now c key =
     (case map_of (l1 c) key of
        Some e \<Rightarrow>
          (let e' = e\<lparr>hits := hits e + 1, lastAccessed := now\<rparr>
           in (Some e', c\<lparr>l1 := AList.update key e' (l1 c)\<rparr>))
      | None \<Rightarrow>
          (case map_of (l2 c) key of
             Some e \<Rightarrow>
               (let e' = e\<lparr>hits := hits e + 1, lastAccessed := now\<rparr>
                in (Some e', c\<lparr>l2 := AList.update key e' (l2 c)\<rparr>))
           | None \<Rightarrow> (None, c)))"

fun lruScan :: "(string \<times> 'v entry) list \<Rightarrow> string option \<Rightarrow> instant option \<Rightarrow> string option" where
  \<comment> \<open>the loop of \<^verbatim>\<open>evictLRU\<close>; \<^verbatim>\<open>lruTime\<close> starts at \<^verbatim>\<open>Infinity\<close>, here \<^const>\<open>None\<close>\<close>
  "lruScan [] lruKey lruTime = lruKey"
| "lruScan ((key, e) # rest) lruKey lruTime =
     (if (case lruTime of None \<Rightarrow> True | Some t \<Rightarrow> lastAccessed e < t)
      then lruScan rest (Some key) (Some (lastAccessed e))
      else lruScan rest lruKey lruTime)"

definition bump_evictions :: "stats \<Rightarrow> stats" where
  "bump_evictions st = st\<lparr>stat_evictions := stat_evictions st + 1\<rparr>"

definition evictLRU_l2 :: "'v cache \<Rightarrow> 'v cache" where
  \<comment> \<open>\<^verbatim>\<open>evictLRU('l2')\<close>; \<^verbatim>\<open>if (lruKey)\<close> is false for no key and for the empty string\<close>
  "evictLRU_l2 c =
     (case lruScan (l2 c) None None of
        None \<Rightarrow> c
      | Some lruKey \<Rightarrow>
          if lruKey = [] then c
          else c\<lparr>l2 := AList.delete lruKey (l2 c), stats := bump_evictions (stats c)\<rparr>)"

definition evictLRU_l1 :: "'v cache \<Rightarrow> 'v cache" where
  \<comment> \<open>\<^verbatim>\<open>evictLRU('l1')\<close>: the victim moves to \<^verbatim>\<open>l2\<close>, which may evict in turn\<close>
  "evictLRU_l1 c =
     (case lruScan (l1 c) None None of
        None \<Rightarrow> c
      | Some lruKey \<Rightarrow>
          if lruKey = [] then c
          else
            (case map_of (l1 c) lruKey of
               None \<Rightarrow> c
             | Some e \<Rightarrow>
                 (let c1 = c\<lparr>l2 := AList.update lruKey e (l2 c)\<rparr>;
                      c2 = (if length (l2 c1) > l2MaxSize then evictLRU_l2 c1 else c1)
                  in c2\<lparr>l1 := AList.delete lruKey (l1 c2), stats := bump_evictions (stats c2)\<rparr>)))"

definition promote :: "'v cache \<Rightarrow> string \<Rightarrow> 'v entry \<Rightarrow> 'v cache" where
  "promote c key e =
     (if hits e > 5 \<and> map_of (l1 c) key = None then
        (let c1 = c\<lparr>l1 := AList.update key e (l1 c), l2 := AList.delete key (l2 c)\<rparr>
         in if length (l1 c1) > l1MaxSize then evictLRU_l1 c1 else c1)
      else c)"

definition set_entry :: "instant \<Rightarrow> 'v cache \<Rightarrow> string \<Rightarrow> 'v \<Rightarrow> int \<Rightarrow> 'v cache" where
  \<comment> \<open>\<^verbatim>\<open>set(key, value, ttl)\<close>\<close>
  "set_entry now c key v t =
     (let e = \<lparr>value = v, timestamp = now, ttl = t, hits = 0, lastAccessed = now\<rparr>;
          c1 = c\<lparr>l1 := AList.update key e (l1 c)\<rparr>
      in if length (l1 c1) > l1MaxSize then evictLRU_l1 c1 else c1)"

text \<open>
  \<^verbatim>\<open>get(key, generator, options)\<close>. The hash of \<^verbatim>\<open>generateKey\<close> is a parameter. The generator
  is an outside call: what it would deliver if invoked is the argument \<open>gen\<close> (\<^const>\<open>Inl\<close> a
  failure), and the result counts the invocations. \<open>now\<close> is the clock at the lookup,
  \<open>now'\<close> the clock when the generator has delivered and \<^verbatim>\<open>set\<close> runs.
\<close>

record ('v) got =
  returned :: "error + 'v"
  cache_after :: "'v cache"
  generatorCalls :: nat

definition cache_get ::
    "('k \<Rightarrow> string) \<Rightarrow> instant \<Rightarrow> instant \<Rightarrow> 'v cache \<Rightarrow> 'k \<Rightarrow> error + 'v \<Rightarrow> int option \<Rightarrow> 'v got" where
  "cache_get generateKey now now' c key gen options_ttl =
     (let cacheKey = generateKey key;
          ttl = (case options_ttl of None \<Rightarrow> config_ttl | Some t \<Rightarrow> if t = 0 then config_ttl else t);
          (cached, c1) = checkLayers now c cacheKey;
          miss =
            (let c2 = c1\<lparr>stats := (stats c1)\<lparr>stat_misses := stat_misses (stats c1) + 1,
                                   stat_apiCalls := stat_apiCalls (stats c1) + 1\<rparr>\<rparr>
             in case gen of
                  Inr v \<Rightarrow> \<lparr>returned = Inr v, cache_after = set_entry now' c2 cacheKey v ttl, generatorCalls = 1\<rparr>
                | Inl err \<Rightarrow>
                    (case cached of
                       Some e \<Rightarrow> \<lparr>returned = Inr (value e), cache_after = c2, generatorCalls = 1\<rparr>
                     | None \<Rightarrow> \<lparr>returned = Inl err, cache_after = c2, generatorCalls = 1\<rparr>))
      in case cached of
           None \<Rightarrow> miss
         | Some e \<Rightarrow>
             if isExpired now e then miss
             else
               (let c2 = c1\<lparr>stats := (stats c1)\<lparr>stat_hits := stat_hits (stats c1) + 1,
                                      stat_savedApiCalls := stat_savedApiCalls (stats c1) + 1\<rparr>\<rparr>
                in \<lparr>returned = Inr (value e), cache_after = promote c2 cacheKey e, generatorCalls = 0\<rparr>))"

subsection \<open>calculateSimilarity\<close>

text \<open>
  Strings are lists of their code units. \<^verbatim>\<open>matrix\<close> is an array of rows; an assignment
  \<^verbatim>\<open>row[j] = v\<close> overwrites index \<open>j\<close> or, at \<open>j = row.length\<close>, appends (the loops never
  write further out).
\<close>

definition array_put :: "'a list \<Rightarrow> nat \<Rightarrow> 'a \<Rightarrow> 'a list" where
  "array_put xs j v = (if j < length xs then xs[j := v] else xs @ [v])"

definition initMatrix :: "nat \<Rightarrow> nat \<Rightarrow> nat list list" where
  \<comment> \<open>the two initialisation loops\<close>
  "initMatrix len1 len2 =
     (let matrix = foldl (\<lambda>m i. array_put m i [i]) [] [0..<len2 + 1]
      in foldl (\<lambda>m j. m[0 := array_put (m ! 0) j j]) matrix [0..<len1 + 1])"

definition fillCell :: "'a list \<Rightarrow> 'a list \<Rightarrow> nat list list \<Rightarrow> nat \<Rightarrow> nat \<Rightarrow> nat list list" where
  \<comment> \<open>the body of the inner loop\<close>
  "fillCell str1 str2 m i j =
     m[i := array_put (m ! i) j
        (if str2 ! (i - 1) = str1 ! (j - 1) then m ! (i - 1) ! (j - 1)
         else min (m ! (i - 1) ! (j - 1) + 1) (min (m ! i ! (j - 1) + 1) (m ! (i - 1) ! j + 1)))]"

definition fillMatrix :: "'a list \<Rightarrow> 'a list \<Rightarrow> nat list list \<Rightarrow> nat list list" where
  \<comment> \<open>the nested loops over \<open>i = 1..len2\<close> and \<open>j = 1..len1\<close>\<close>
  "fillMatrix str1 str2 m0 =
     foldl (\<lambda>m i. foldl (\<lambda>m j. fillCell str1 str2 m i j) m [1..<length str1 + 1]) m0 [1..<length str2 + 1]"

definition calculateSimilarity :: "'a list \<Rightarrow> 'a list \<Rightarrow> real" where
  "calculateSimilarity str1 str2 =
     (let len1 = length str1; len2 = length str2
      in if len1 = 0 then 0
         else if len2 = 0 then 0
         else
           (let matrix = fillMatrix str1 str2 (initMatrix len1 len2);
                distance = matrix ! len2 ! len1;
                maxLen = max len1 len2
            in 1 - real distance / real maxLen))"

text \<open>
  The distance the similarity formula names, in the spec's words: the least number of
  single-character insertions, deletions and substitutions, by the standard recursion.
\<close>

fun levenshtein_distance :: "'a list \<Rightarrow> 'a list \<Rightarrow> nat" where
  "levenshtein_distance [] ys = length ys"
| "levenshtein_distance (x # xs) [] = Suc (length xs)"
| "levenshtein_distance (x # xs) (y # ys) =
     min (levenshtein_distance xs ys + (if x = y then 0 else 1))
       (min (levenshtein_distance xs (y # ys) + 1) (levenshtein_distance (x # xs) ys + 1))"

definition prefix_distance :: "'a list \<Rightarrow> 'a list \<Rightarrow> nat \<Rightarrow> nat \<Rightarrow> nat" where
  \<comment> \<open>what cell \<open>matrix[i][j]\<close> is to hold: the distance between the first \<open>i\<close> characters of
      \<open>str2\<close> and the first \<open>j\<close> of \<open>str1\<close>\<close>
  "prefix_distance str1 str2 i j = levenshtein_distance (take i str2) (take j str1)"

section \<open>AppointmentService\<close>

text \<open>
  Messages are taken to be ASCII text. \<^verbatim>\<open>toLowerCase\<close> maps the letters A to Z, \<^verbatim>\<open>trim\<close>
  strips white space at both ends, the substring test of \<^verbatim>\<open>String.prototype.includes\<close> is \<open>includesStr\<close>.
\<close>

definition dq :: string where
  \<comment> \<open>a double quote inside a message\<close>
  "dq = [CHR 0x22]"

definition isSpace :: "char \<Rightarrow> bool" where
  "isSpace c = (of_char c \<in> {9, 10, 11, 12, 13, 32, 160 :: nat})"

definition isDigit :: "char \<Rightarrow> bool" where
  "isDigit c = (48 \<le> (of_char c :: nat) \<and> (of_char c :: nat) \<le> 57)"

definition toLowerCase :: "string \<Rightarrow> string" where
  "toLowerCase s =
     map (\<lambda>c. if 65 \<le> (of_char c :: nat) \<and> (of_char c :: nat) \<le> 90 then char_of (of_char c + 32 :: nat) else c) s"

definition trim :: "string \<Rightarrow> string" where
  "trim s = rev (dropWhile isSpace (rev (dropWhile isSpace s)))"

fun starts_with :: "string \<Rightarrow> string \<Rightarrow> bool" where
  "starts_with s [] = True"
| "starts_with [] (p # ps) = False"
| "starts_with (c # s) (p # ps) = (c = p \<and> starts_with s ps)"

fun includesStr :: "string \<Rightarrow> string \<Rightarrow> bool" where
  "includesStr [] phrase = (phrase = [])"
| "includesStr (c # s) phrase = (starts_with (c # s) phrase \<or> includesStr s phrase)"

definition parseInt :: "string \<Rightarrow> int" where
  \<comment> \<open>on a string of decimal digits\<close>
  "parseInt s = foldl (\<lambda>n c. 10 * n + (int (of_char c) - 48)) 0 s"

definition detectBookingIntent :: "string \<Rightarrow> bool" where
  "detectBookingIntent message =
     (let lowerMessage = toLowerCase message
      in \<exists>phrase \<in> set [''book an appointment'', ''book appointment'', ''schedule appointment'',
            ''make appointment'', ''book a visit'', ''schedule a visit'', ''see a vet'', ''visit vet'',
            ''need appointment'', ''want appointment'', ''appointment please'', ''book consultation'',
            ''schedule consultation'', ''need to see vet'', ''want to see vet'', ''i want to book'',
            ''i need to book'', ''can i book'', ''like to book'', ''make a booking'', ''schedule vet''].
           includesStr lowerMessage phrase)"

definition detectCancelIntent :: "string \<Rightarrow> bool" where
  "detectCancelIntent message =
     (let lowerMessage = toLowerCase message
      in \<exists>phrase \<in> set [''cancel'', ''stop'', ''nevermind'', ''forget it'', ''exit''].
           includesStr lowerMessage phrase)"

datatype booking_state =
  NONE | ASK_OWNER_NAME | ASK_PET_NAME | ASK_PHONE | ASK_DATE_TIME | CONFIRMATION | COMPLETED

record appointment_data =
  ownerName :: "string option"
  petName :: "string option"
  phone :: "string option"
  preferredDateTime :: "string option"
  appointmentDate :: "instant option"
  slotKey :: "slot_key option"

definition empty_data :: appointment_data where
  \<comment> \<open>the object \<^verbatim>\<open>{}\<close>\<close>
  "empty_data = \<lparr>ownerName = None, petName = None, phone = None, preferredDateTime = None,
     appointmentDate = None, slotKey = None\<rparr>"

definition shown :: "string option \<Rightarrow> string" where
  \<comment> \<open>a field inside a template string\<close>
  "shown v = (case v of None \<Rightarrow> ''undefined'' | Some s \<Rightarrow> s)"

definition getConfirmationMessage :: "appointment_data \<Rightarrow> string" where
  "getConfirmationMessage data =
     ''Perfect! Let me confirm your appointment details:'' @ [CHR 0x0A, CHR 0x0A]
     @ ''Owner Name: '' @ shown (ownerName data) @ [CHR 0x0A]
     @ ''Pet Name: '' @ shown (petName data) @ [CHR 0x0A]
     @ ''Phone: '' @ shown (phone data) @ [CHR 0x0A]
     @ ''Preferred Date/Time: '' @ shown (preferredDateTime data) @ [CHR 0x0A, CHR 0x0A]
     @ ''Is this information correct? (Type 'yes' to confirm or 'no' to start over)''"

definition getNextQuestion :: "booking_state \<Rightarrow> appointment_data \<Rightarrow> (string \<times> booking_state) option" where
  \<comment> \<open>the message and \<^verbatim>\<open>nextState\<close>; \<^const>\<open>None\<close> is the \<^verbatim>\<open>null\<close> of the default case\<close>
  "getNextQuestion state data =
     (case state of
        ASK_OWNER_NAME \<Rightarrow>
          Some (''Great! I'll help you book an appointment. May I have your full name, please?'', ASK_PET_NAME)
      | ASK_PET_NAME \<Rightarrow> Some (''Thank you! What's your pet's name?'', ASK_PHONE)
      | ASK_PHONE \<Rightarrow> Some (''What's the best phone number to reach you at?'', ASK_DATE_TIME)
      | ASK_DATE_TIME \<Rightarrow>
          Some (''When would you prefer to schedule the appointment? Please provide a future date and time ''
                @ ''(e.g., '' @ dq @ ''tomorrow at 2pm'' @ dq @ '', '' @ dq @ ''next Monday at 10:30am'' @ dq @ '', or '' @ dq
                @ ''January 20, 2026 at 3pm'' @ dq @ '').'',
                CONFIRMATION)
      | CONFIRMATION \<Rightarrow> Some (getConfirmationMessage data, COMPLETED)
      | COMPLETED \<Rightarrow>
          Some (''Your appointment has been successfully booked! We'll contact you shortly to confirm. ''
                @ ''Is there anything else I can help you with?'', NONE)
      | NONE \<Rightarrow> None)"

definition validatePhone :: "string \<Rightarrow> string + string" where
  \<comment> \<open>\<^const>\<open>Inl\<close> the message of an invalid number, \<^const>\<open>Inr\<close> the cleaned digits\<close>
  "validatePhone ph =
     (let cleaned = filter isDigit ph
      in if length cleaned \<noteq> 10 then Inl ''Please provide a valid 10-digit phone number.''
         else Inr cleaned)"

text \<open>
  The regular expression \<^verbatim>\<open>/(\d{1,2})(?::(\d{2}))?\s*(am|pm)/i\<close>, matched by backtracking
  at the leftmost position where it succeeds: two digits before one, the minutes group
  before its absence, then all white space, then the meridiem. The result holds the
  three groups.
\<close>

definition match_meridiem :: "string \<Rightarrow> string option" where
  "match_meridiem s =
     (let r = dropWhile isSpace s
      in if starts_with r ''am'' then Some ''am'' else if starts_with r ''pm'' then Some ''pm'' else None)"

definition match_after_hours :: "string \<Rightarrow> string \<Rightarrow> (string \<times> string option \<times> string) option" where
  "match_after_hours h r =
     (let plain = (case match_meridiem r of None \<Rightarrow> None | Some m \<Rightarrow> Some (h, None, m))
      in case r of
           c # m1 # m2 # r' \<Rightarrow>
             if c = CHR '':'' \<and> isDigit m1 \<and> isDigit m2 then
               (case match_meridiem r' of Some m \<Rightarrow> Some (h, Some [m1, m2], m) | None \<Rightarrow> plain)
             else plain
         | _ \<Rightarrow> plain)"

definition match_time_at :: "string \<Rightarrow> (string \<times> string option \<times> string) option" where
  "match_time_at s =
     (case s of
        [] \<Rightarrow> None
      | d1 # r \<Rightarrow>
          if \<not> isDigit d1 then None
          else
            (case r of
               d2 # r' \<Rightarrow>
                 if isDigit d2 then
                   (case match_after_hours [d1, d2] r' of
                      Some m \<Rightarrow> Some m
                    | None \<Rightarrow> match_after_hours [d1] r)
                 else match_after_hours [d1] r
             | [] \<Rightarrow> match_after_hours [d1] r))"

fun match_time :: "string \<Rightarrow> (string \<times> string option \<times> string) option" where
  "match_time [] = None"
| "match_time (c # s) = (case match_time_at (c # s) of Some m \<Rightarrow> Some m | None \<Rightarrow> match_time s)"

definition requestedTime :: "string \<Rightarrow> instant \<Rightarrow> instant option" where
  \<comment> \<open>the block \<^verbatim>\<open>if (timeMatch) { ... inputDate.setHours(hours, minutes, 0, 0) }\<close>, which the
      three branches of \<^verbatim>\<open>validateDateTime\<close> repeat\<close>
  "requestedTime lowerStr inputDate =
     (case match_time lowerStr of
        None \<Rightarrow> None
      | Some (g1, g2, meridiem) \<Rightarrow>
          (let hours0 = parseInt g1;
               minutes = (case g2 of None \<Rightarrow> 0 | Some m \<Rightarrow> parseInt m);
               hours1 = (if meridiem = ''pm'' \<and> hours0 \<noteq> 12 then hours0 + 12 else hours0);
               hours = (if meridiem = ''am'' \<and> hours1 = 12 then 0 else hours1)
           in Some (setHours inputDate hours minutes 0 0)))"

datatype validation = Invalid string | Valid instant string

definition dayNames :: "string list" where
  "dayNames = [''sunday'', ''monday'', ''tuesday'', ''wednesday'', ''thursday'', ''friday'', ''saturday'']"

definition targetDay :: "string \<Rightarrow> nat option" where
  \<comment> \<open>the first day of the list that the string mentions\<close>
  "targetDay lowerStr =
     (case filter (\<lambda>i. includesStr lowerStr (dayNames ! i)) [0..<7] of [] \<Rightarrow> None | i # rest \<Rightarrow> Some i)"

definition resolveDate :: "platform \<Rightarrow> instant \<Rightarrow> string \<Rightarrow> instant option" where
  \<comment> \<open>\<^verbatim>\<open>inputDate\<close> of \<^verbatim>\<open>validateDateTime\<close>; \<^const>\<open>None\<close> is an invalid date\<close>
  "resolveDate pf now dateTimeStr =
     (let lowerStr = trim (toLowerCase dateTimeStr)
      in if includesStr lowerStr ''tomorrow'' then
           (let inputDate = addDays now 1
            in case requestedTime lowerStr inputDate of
                 Some d \<Rightarrow> Some d
               | None \<Rightarrow> Some (setHours inputDate 10 0 0 0))
         else if includesStr lowerStr ''next'' then
           (case targetDay lowerStr of
              Some target \<Rightarrow>
                (let currentDay = getDay now;
                     daysToAdd0 = int target - currentDay;
                     daysToAdd = (if daysToAdd0 \<le> 0 then daysToAdd0 + 7 else daysToAdd0);
                     inputDate = addDays now daysToAdd
                 in case requestedTime lowerStr inputDate of
                      Some d \<Rightarrow> Some d
                    | None \<Rightarrow> Some (setHours inputDate 10 0 0 0))
            | None \<Rightarrow> parseDate pf dateTimeStr)
         else if includesStr lowerStr ''today'' then
           (let inputDate = now
            in case requestedTime lowerStr inputDate of
                 Some d \<Rightarrow> Some d
               | None \<Rightarrow> Some (setHours inputDate (getHours inputDate + 2) 0 0 0))
         else parseDate pf dateTimeStr)"

definition validateDateTime :: "platform \<Rightarrow> instant \<Rightarrow> string \<Rightarrow> validation" where
  "validateDateTime pf now dateTimeStr =
     (case resolveDate pf now dateTimeStr of
        None \<Rightarrow>
          Invalid (''Please provide a valid date and time (e.g., '' @ dq @ ''tomorrow at 2pm'' @ dq @ '', '' @ dq
                   @ ''next Monday at 10:30am'' @ dq @ '', '' @ dq @ ''January 20 at 3pm'' @ dq @ '').'')
      | Some inputDate \<Rightarrow>
          if inputDate \<le> now then
            Invalid (''Please select a future date and time. ''
                     @ ''Appointments cannot be booked for past dates or times.'')
          else if inputDate > addMonths now 6 then
            Invalid (''Appointments can only be scheduled up to 6 months in advance. ''
                     @ ''Please choose an earlier date.'')
          else Valid inputDate (formatLong pf inputDate))"

record booking_response =
  data :: appointment_data
  isValid :: bool
  errorMessage :: "string option"
  confirmed :: bool
  cancelled :: bool

definition processBookingResponse ::
    "platform \<Rightarrow> instant \<Rightarrow> booking_state \<Rightarrow> string \<Rightarrow> appointment_data \<Rightarrow> booking_response" where
  "processBookingResponse pf now state userMessage appointmentData =
     (let response = \<lparr>data = appointmentData, isValid = True, errorMessage = None,
                       confirmed = False, cancelled = False\<rparr>;
          invalid = (\<lambda>msg. response\<lparr>isValid := False, errorMessage := Some msg\<rparr>)
      in case state of
           ASK_PET_NAME \<Rightarrow>
             if length (trim userMessage) < 2 then invalid ''Please provide a valid name.''
             else response\<lparr>data := appointmentData\<lparr>ownerName := Some (trim userMessage)\<rparr>\<rparr>
         | ASK_PHONE \<Rightarrow>
             if length (trim userMessage) < 1 then invalid ''Please provide your pet's name.''
             else response\<lparr>data := appointmentData\<lparr>petName := Some (trim userMessage)\<rparr>\<rparr>
         | ASK_DATE_TIME \<Rightarrow>
             (case validatePhone userMessage of
                Inl msg \<Rightarrow> invalid msg
              | Inr cleaned \<Rightarrow> response\<lparr>data := appointmentData\<lparr>phone := Some cleaned\<rparr>\<rparr>)
         | CONFIRMATION \<Rightarrow>
             (let dateTimeInput = trim userMessage
              in if length dateTimeInput < 3 then invalid ''Please provide a preferred date and time.''
                 else
                   (case validateDateTime pf now dateTimeInput of
                      Invalid msg \<Rightarrow> invalid msg
                    | Valid d formatted \<Rightarrow>
                        response\<lparr>data := appointmentData\<lparr>preferredDateTime := Some formatted,
                                                            appointmentDate := Some d\<rparr>\<rparr>))
         | COMPLETED \<Rightarrow>
             (let lowerMessage = trim (toLowerCase userMessage)
              in if lowerMessage = ''yes'' \<or> lowerMessage = ''confirm'' \<or> lowerMessage = ''y''
                 then response\<lparr>confirmed := True\<rparr>
                 else if lowerMessage = ''no'' \<or> lowerMessage = ''cancel'' \<or> lowerMessage = ''n''
                 then response\<lparr>cancelled := True, data := empty_data\<rparr>
                 else invalid (''Please type '' @ dq @ ''yes'' @ dq @ '' to confirm or '' @ dq @ ''no'' @ dq @ '' to start over.''))
         | _ \<Rightarrow> response)"

section \<open>ChatController\<close>

text \<open>
  \<^verbatim>\<open>handleMessage\<close> works on the conversation that \<^verbatim>\<open>Conversation.findOne\<close> delivered
  (\<^const>\<open>None\<close>: a new session) and on the slot manager's map. The collaborators outside
  the repository enter by what they deliver: whether the two \<^verbatim>\<open>save()\<close> calls succeed, and
  the reply of the question-answering path (\<^verbatim>\<open>CacheService.findSimilar\<close>, else
  \<^verbatim>\<open>CacheService.get\<close> around the text generator), \<^const>\<open>Inl\<close> when it throws. The analytics
  calls change nothing modelled here. Every exception ends in the \<^verbatim>\<open>catch\<close> block, which
  answers with status 500 and saves nothing.
\<close>

datatype role = role_user | role_bot

record conversation =
  messages :: "(role \<times> string) list"
  appointmentState :: booking_state
  appointmentData :: appointment_data

record appointment =
  appointment_sessionId :: string
  appointment_fields :: appointment_data

record collaborators =
  conversationSaves :: bool
  appointmentSaves :: bool
  answer :: "error + string"

datatype http_reply =
    Json string string booking_state  \<comment> \<open>\<^verbatim>\<open>{sessionId, message, appointmentState}\<close>\<close>
  | BadRequest
  | ServerError

text \<open>
  What one call leaves behind: the reply, the conversation as saved (\<^const>\<open>None\<close> when no
  save succeeded), the slot map, the releases scheduled by \<^verbatim>\<open>reserveSlot\<close>, and the
  appointments saved.
\<close>

record outcome =
  out_reply :: http_reply
  out_saved :: "conversation option"
  out_slots :: booked_slots
  out_timers :: "timer list"
  out_appointments :: "appointment list"

definition failed :: "booked_slots \<Rightarrow> timer list \<Rightarrow> appointment list \<Rightarrow> outcome" where
  \<comment> \<open>the \<^verbatim>\<open>catch\<close> block\<close>
  "failed bs tms appts =
     \<lparr>out_reply = ServerError, out_saved = None, out_slots = bs, out_timers = tms, out_appointments = appts\<rparr>"

definition respond ::
    "collaborators \<Rightarrow> string \<Rightarrow> conversation \<Rightarrow> string \<Rightarrow> booking_state \<Rightarrow> booked_slots \<Rightarrow> timer list
       \<Rightarrow> appointment list \<Rightarrow> outcome" where
  \<comment> \<open>push the bot's message, save the conversation, send the reply\<close>
  "respond co sid conv botResponse newAppointmentState bs tms appts =
     (let conv' = conv\<lparr>messages := messages conv @ [(role_bot, botResponse)]\<rparr>
      in if conversationSaves co
         then \<lparr>out_reply = Json sid botResponse newAppointmentState, out_saved = Some conv',
               out_slots = bs, out_timers = tms, out_appointments = appts\<rparr>
         else failed bs tms appts)"

definition cancelMessage :: string where
  "cancelMessage = ''Appointment booking cancelled. How else can I help you with your pet's needs?''"

definition handleCompleted ::
    "collaborators \<Rightarrow> instant \<Rightarrow> booked_slots \<Rightarrow> string \<Rightarrow> conversation \<Rightarrow> string \<Rightarrow> outcome" where
  \<comment> \<open>the branch for state \<^verbatim>\<open>COMPLETED\<close>; \<^verbatim>\<open>newAppointmentState\<close> keeps the value it was
      initialised with\<close>
  "handleCompleted co now bs sid conv message =
     (let lowerMessage = trim (toLowerCase message)
      in if lowerMessage = ''yes'' \<or> lowerMessage = ''confirm'' \<or> lowerMessage = ''y'' then
           (case (case slotKey (appointmentData conv) of
                    None \<Rightarrow> Inr bs
                  | Some k \<Rightarrow> confirmReservation now bs k sid) of
              Inl e \<Rightarrow> failed bs [] []
            | Inr bs' \<Rightarrow>
                if \<not> appointmentSaves co then failed bs' [] []
                else
                  respond co sid (conv\<lparr>appointmentState := NONE\<rparr>)
                    (''Your appointment has been successfully booked! We'll contact you shortly to confirm. ''
                     @ ''Is there anything else I can help you with?'')
                    COMPLETED bs' []
                    [\<lparr>appointment_sessionId = sid, appointment_fields = appointmentData conv\<rparr>])
         else if lowerMessage = ''no'' \<or> lowerMessage = ''cancel'' \<or> lowerMessage = ''n'' then
           respond co sid (conv\<lparr>appointmentState := NONE, appointmentData := empty_data\<rparr>)
             ''Appointment booking cancelled. How can I help you with your pet's needs?''
             COMPLETED bs [] []
         else
           respond co sid conv
             (''Please type '' @ dq @ ''yes'' @ dq @ '' to confirm or '' @ dq @ ''no'' @ dq @ '' to start over.'')
             COMPLETED bs [] [])"

definition suggestionMessage :: "string \<Rightarrow> slot list \<Rightarrow> string" where
  "suggestionMessage msg suggested =
     (if suggested \<noteq> [] then
        msg @ [CHR 0x0A, CHR 0x0A] @ ''Available times nearby:''
        @ concat (map (\<lambda>s. [CHR 0x0A] @ ''- '' @ displayTime s) suggested)
        @ [CHR 0x0A, CHR 0x0A] @ ''Please choose one of these times or suggest another.''
      else msg)"

definition handleBookingStep ::
    "nat \<Rightarrow> platform \<Rightarrow> collaborators \<Rightarrow> instant \<Rightarrow> booked_slots \<Rightarrow> string \<Rightarrow> conversation \<Rightarrow> string
       \<Rightarrow> outcome option" where
  \<comment> \<open>the branch for the other states of the booking flow\<close>
  "handleBookingStep fuel pf co now bs sid conv message =
     (let state = appointmentState conv;
          bookingResponse = processBookingResponse pf now state message (appointmentData conv)
      in if \<not> isValid bookingResponse then
           Some (respond co sid conv (case errorMessage bookingResponse of None \<Rightarrow> [] | Some m \<Rightarrow> m)
                   state bs [] [])
         else
           (let conv1 = conv\<lparr>appointmentData := data bookingResponse\<rparr>;
                advance = (\<lambda>c bs' tms.
                  case getNextQuestion state (appointmentData c) of
                    None \<Rightarrow> failed bs' tms []
                  | Some (question, nextState) \<Rightarrow>
                      respond co sid (c\<lparr>appointmentState := nextState\<rparr>) question nextState bs' tms [])
            in case (if state = CONFIRMATION then appointmentDate (data bookingResponse) else None) of
                 None \<Rightarrow> Some (advance conv1 bs [])
               | Some d \<Rightarrow>
                   (case checkAvailability fuel pf now bs d of
                      None \<Rightarrow> None
                    | Some (p, bs1) \<Rightarrow>
                        (case await p of
                           Unavailable r msg suggested \<Rightarrow>
                             Some (respond co sid conv1 (suggestionMessage msg suggested) state bs1 [] [])
                         | Available det \<Rightarrow>
                             (case reserveSlot now bs1 d sid of
                                (key, bs2, tm) \<Rightarrow>
                                  Some (advance
                                          (conv1\<lparr>appointmentData := (appointmentData conv1)\<lparr>slotKey := Some key\<rparr>\<rparr>)
                                          bs2 [tm]))))))"

definition handleMessage ::
    "nat \<Rightarrow> platform \<Rightarrow> collaborators \<Rightarrow> instant \<Rightarrow> booked_slots \<Rightarrow> string \<Rightarrow> conversation option \<Rightarrow> string
       \<Rightarrow> outcome option" where
  \<comment> \<open>\<open>sid\<close> is \<^verbatim>\<open>providedSessionId || uuidv4()\<close>; \<^const>\<open>None\<close>: the call does not return\<close>
  "handleMessage fuel pf co now bs sid found message =
     (if message = [] \<or> trim message = [] then
        Some \<lparr>out_reply = BadRequest, out_saved = None, out_slots = bs, out_timers = [], out_appointments = []\<rparr>
      else
        (let conversation0 =
               (case found of
                  None \<Rightarrow> \<lparr>messages = [], appointmentState = NONE, appointmentData = empty_data\<rparr>
                | Some c \<Rightarrow> c);
             conv = conversation0\<lparr>messages := messages conversation0 @ [(role_user, message)]\<rparr>
         in if appointmentState conv \<noteq> NONE \<and> appointmentState conv \<noteq> COMPLETED \<and> detectCancelIntent message then
              Some (respond co sid (conv\<lparr>appointmentState := NONE, appointmentData := empty_data\<rparr>)
                      cancelMessage NONE bs [] [])
            else if appointmentState conv \<noteq> NONE then
              (if appointmentState conv = COMPLETED then Some (handleCompleted co now bs sid conv message)
               else handleBookingStep fuel pf co now bs sid conv message)
            else if detectBookingIntent message then
              (case getNextQuestion ASK_OWNER_NAME empty_data of
                 None \<Rightarrow> Some (failed bs [] [])
               | Some (question, nextState) \<Rightarrow>
                   Some (respond co sid (conv\<lparr>appointmentState := nextState\<rparr>) question nextState bs [] []))
            else
              (case answer co of
                 Inl e \<Rightarrow> Some (failed bs [] [])
               | Inr reply \<Rightarrow> Some (respond co sid conv reply (appointmentState conv) bs [] []))))"

text \<open>
  A session as the client drives it: each message is handled with the conversation and
  the slot map the previous call left, at the given times.
\<close>

fun dialogue ::
    "nat \<Rightarrow> platform \<Rightarrow> collaborators \<Rightarrow> string \<Rightarrow> conversation option \<Rightarrow> booked_slots \<Rightarrow> (instant \<times> string) list
       \<Rightarrow> (conversation option \<times> booked_slots) option" where
  "dialogue fuel pf co sid conv bs [] = Some (conv, bs)"
| "dialogue fuel pf co sid conv bs ((now, message) # rest) =
     (case handleMessage fuel pf co now bs sid conv message of
        None \<Rightarrow> None
      | Some out \<Rightarrow>
          dialogue fuel pf co sid (case out_saved out of None \<Rightarrow> conv | Some c \<Rightarrow> Some c) (out_slots out) rest)"

section \<open>Properties of the slot manager\<close>

lemmas clock_defs = day_ms_def hour_ms_def minute_ms_def getHours_def getMinutes_def getDay_def
  setHours_def addDays_def getDayName_def getTimeString_def timeToMinutes_def

lemmas slot_defs = businessHours_def isBusinessHour_def getSlotKey_def isSlotBooked_def
  hasConflictWithBuffer_def slotDuration_def bufferTime_def getDailyAppointmentCount_def

text \<open>
  C5. An expired reservation is never reported as booked: when the entry at a slot key is
  a reservation whose expiry instant is earlier than the time of the read,
  \<^verbatim>\<open>isSlotBooked\<close> answers false, and it removes the entry itself, whether or not the
  scheduled release has run.
\<close>

theorem isSlotBooked_expired_reservation:
  assumes "map_of bs key = Some (Reserved sid e d)" and "e < now"
  shows "fst (isSlotBooked now bs key) = False
       \<and> map_of (snd (isSlotBooked now bs key)) key = None"
  using assms by (simp add: isSlotBooked_def delete_conv')

theorem isSlotBooked_expired_reservation_witness:
  "map_of [(1800000, Reserved ''s1'' 500 1800000)] 1800000 = Some (Reserved ''s1'' 500 1800000)
   \<and> (500::int) < 501
   \<and> fst (isSlotBooked 501 [(1800000, Reserved ''s1'' 500 1800000)] 1800000) = False
   \<and> map_of (snd (isSlotBooked 501 [(1800000, Reserved ''s1'' 500 1800000)] 1800000)) 1800000 = None"
  using isSlotBooked_expired_reservation [of "[(1800000, Reserved ''s1'' 500 1800000)]" 1800000 "''s1''" 500 1800000 501]
  by simp

subsection \<open>The suggestion loops\<close>

text \<open>
  The \<^verbatim>\<open>while\<close> loop of \<^verbatim>\<open>getNextAvailableSlots\<close> ends when \<^verbatim>\<open>slots\<close> has \<^verbatim>\<open>count\<close>
  elements, and only a truthy \<^verbatim>\<open>availability.available\<close> adds one. The promise has no such
  property, so a loop that starts short of \<^verbatim>\<open>count\<close> never returns, whatever the fuel.
\<close>

lemma getNextAvailableSlots_loop_starves:
  "length slots < count \<Longrightarrow> getNextAvailableSlots_loop fuel pf now bs t count slots = None"
proof (induction fuel arbitrary: bs t)
  case 0
  then show ?case by (simp add: getNextAvailableSlots_loop.simps)
next
  case (Suc fuel)
  show ?case
    apply (subst getNextAvailableSlots_loop.simps)
    using Suc by (simp add: promise_available_def Let_def split: option.splits)
qed

lemma checkAvailability_closed_hangs:
  "\<not> isBusinessHour (getDayName t) (getTimeString t) \<Longrightarrow> checkAvailability fuel pf now bs t = None"
  by (cases fuel) (simp_all add: checkAvailability.simps getNextAvailableSlots_loop_starves)

text \<open>
  The \<^verbatim>\<open>for\<close> loop of \<^verbatim>\<open>getNearbyAvailableSlots\<close> is bounded by its twelve offsets, but it
  tests the same missing property: whenever the call returns, it returns no suggestion.
\<close>

lemma getNearbyAvailableSlots_loop_keeps_nothing:
  "getNearbyAvailableSlots_loop fuel pf now bs base count offs slots = Some (sl, bs') \<Longrightarrow> sl = slots"
proof (induction offs arbitrary: bs)
  case Nil
  then show ?case by (simp add: getNearbyAvailableSlots_loop.simps)
next
  case (Cons off rest)
  from Cons.prems show ?case
    apply (subst (asm) getNearbyAvailableSlots_loop.simps)
    apply (auto simp: promise_available_def Let_def split: if_splits option.splits dest: Cons.IH)
    done
qed

lemma getNearbyAvailableSlots_returns_nothing:
  "getNearbyAvailableSlots fuel pf now bs t count = Some (sl, bs') \<Longrightarrow> sl = []"
  unfolding getNearbyAvailableSlots_def by (rule getNearbyAvailableSlots_loop_keeps_nothing)

text \<open>
  Wednesday 7 January 2026 is day 20460. With no booking at all, every probe around 15:00
  of that day is within business hours and is reported available; the call returns, and
  it returns the empty list.
\<close>

lemma getNearbyAvailableSlots_empty_example:
  "getNearbyAvailableSlots 1 pf (20460 * day_ms + 9 * hour_ms) [] (20460 * day_ms + 15 * hour_ms) 3
     = Some ([], [])
   \<and> map (\<lambda>off. map_option (\<lambda>r. available (await (fst r)))
            (checkAvailability 1 pf (20460 * day_ms + 9 * hour_ms) []
               (20460 * day_ms + 15 * hour_ms + off * 60000)))
         [30, -30, 60] = [Some True, Some True, Some True]"
  unfolding getNearbyAvailableSlots_def searchOffsets_def
  by (simp add: getNearbyAvailableSlots_loop.simps checkAvailability.simps promise_available_def
        Let_def clock_defs slot_defs)

text \<open>
  C3 (the code at the failing input). Monday 5 January 2026 is day 20458. The 17:30 slot
  of that Monday is confirmed and 17:30 is requested. The probes at -60, -90 and -120
  minutes (16:30, 16:00, 15:30) are each reported available by \<^verbatim>\<open>checkAvailability\<close>, so
  they are the three suggestions the strategy describes; but the first probe, 18:00, is
  outside business hours, its check enters \<^verbatim>\<open>getNextAvailableSlots\<close>, and
  \<^verbatim>\<open>getNearbyAvailableSlots\<close> does not return for any amount of fuel.
\<close>

theorem getNearbyAvailableSlots_hangs_example:
  "getNearbyAvailableSlots fuel pf (20458 * day_ms + 9 * hour_ms)
       [(20458 * day_ms + 17 * hour_ms + 30 * minute_ms,
         Confirmed ''s1'' (20458 * day_ms + 17 * hour_ms + 30 * minute_ms) (20457 * day_ms))]
       (20458 * day_ms + 17 * hour_ms + 30 * minute_ms) 3 = None
   \<and> map (\<lambda>off. map_option (\<lambda>r. available (await (fst r)))
            (checkAvailability 1 pf (20458 * day_ms + 9 * hour_ms)
               [(20458 * day_ms + 17 * hour_ms + 30 * minute_ms,
                 Confirmed ''s1'' (20458 * day_ms + 17 * hour_ms + 30 * minute_ms) (20457 * day_ms))]
               (20458 * day_ms + 17 * hour_ms + 30 * minute_ms + off * 60000)))
         [-60, -90, -120] = [Some True, Some True, Some True]"
proof -
  have closed: "\<not> isBusinessHour (getDayName 1767636000000) (getTimeString 1767636000000)"
    by (simp add: clock_defs slot_defs)
  have "getNearbyAvailableSlots fuel pf now bs (20458 * day_ms + 17 * hour_ms + 30 * minute_ms) 3 = None"
    for now bs
    unfolding getNearbyAvailableSlots_def searchOffsets_def
    by (subst getNearbyAvailableSlots_loop.simps)
       (simp add: Let_def day_ms_def hour_ms_def minute_ms_def checkAvailability_closed_hangs [OF closed])
  moreover have "map (\<lambda>off. map_option (\<lambda>r. available (await (fst r)))
            (checkAvailability 1 pf (20458 * day_ms + 9 * hour_ms)
               [(20458 * day_ms + 17 * hour_ms + 30 * minute_ms,
                 Confirmed ''s1'' (20458 * day_ms + 17 * hour_ms + 30 * minute_ms) (20457 * day_ms))]
               (20458 * day_ms + 17 * hour_ms + 30 * minute_ms + off * 60000)))
         [-60, -90, -120] = [Some True, Some True, Some True]"
    by (simp add: checkAvailability.simps clock_defs slot_defs)
  ultimately show ?thesis by simp
qed

subsection \<open>The buffer test\<close>

lemma hasConflictWithBuffer_window:
  "hasConflictWithBuffer bs t \<longleftrightarrow>
     (\<exists>(k, b) \<in> set bs. date b - 40 * minute_ms < t \<and> t < date b + 40 * minute_ms)"
proof -
  have "(t - bufferTime * minute_ms < d + slotDuration * minute_ms
          \<and> t + (slotDuration + bufferTime) * minute_ms > d)
        \<longleftrightarrow> (d - 40 * minute_ms < t \<and> t < d + 40 * minute_ms)" for d
    by (auto simp: slotDuration_def bufferTime_def minute_ms_def)
  then show ?thesis
    by (simp add: hasConflictWithBuffer_def Let_def)
qed

lemma isSlotBooked_all_live:
  assumes "list_all (\<lambda>(k, b). live now b) bs"
  shows "snd (isSlotBooked now bs k) = bs"
proof (cases "map_of bs k")
  case None
  then show ?thesis by (simp add: isSlotBooked_def)
next
  case (Some b)
  then have "(k, b) \<in> set bs" by (rule map_of_SomeD)
  with assms have "live now b" by (auto simp: list_all_iff)
  with Some show ?thesis by (cases b) (simp_all add: isSlotBooked_def live_def)
qed

lemma checkAvailability_all_live:
  "(list_all (\<lambda>(k, b). live now b) bs \<longrightarrow> checkAvailability fuel pf now bs t = Some (p, bs') \<longrightarrow> bs' = bs)"
  "(list_all (\<lambda>(k, b). live now b) bs \<longrightarrow>
      getNearbyAvailableSlots_loop fuel pf now bs base count offs slots = Some (sl, bs') \<longrightarrow> bs' = bs)"
  "(list_all (\<lambda>(k, b). live now b) bs \<longrightarrow>
      getNextAvailableSlots_loop fuel pf now bs t0 count slots = Some (sl, bs') \<longrightarrow> bs' = bs)"
proof (induction fuel pf now bs t and fuel pf now bs base count offs slots and fuel pf now bs t0 count slots
        arbitrary: p bs' and sl bs' and sl bs'
        rule: checkAvailability_getNearbyAvailableSlots_loop_getNextAvailableSlots_loop.induct)
  case (1 pf now bs requestedDate)
  then show ?case by (simp add: checkAvailability.simps)
next
  case (2 fuel pf now bs requestedDate)
  obtain booked bs1 where b: "isSlotBooked now bs (getSlotKey requestedDate) = (booked, bs1)"
    by (cases "isSlotBooked now bs (getSlotKey requestedDate)")
  show ?case
  proof (intro impI)
    assume lv: "list_all (\<lambda>(k, b). live now b) bs"
    assume r: "checkAvailability (Suc fuel) pf now bs requestedDate = Some (p, bs')"
    have e: "bs1 = bs" using isSlotBooked_all_live [OF lv, of "getSlotKey requestedDate"] b by simp
    show "bs' = bs"
    proof (cases "isBusinessHour (getDayName requestedDate) (getTimeString requestedDate)")
      case False
      then show ?thesis using r checkAvailability_closed_hangs [OF False] by simp
    next
      case True
      with r b lv e show ?thesis
        using 2(2)[OF _ b[symmetric] refl] 2(3)[OF _ b[symmetric] refl] 2(4)[OF _ b[symmetric] refl]
        by (auto simp: checkAvailability.simps split: option.splits if_splits)
    qed
  qed
next
  case (3 fuel pf now bs baseDate count slots)
  then show ?case by (simp add: getNearbyAvailableSlots_loop.simps)
next
  case (4 fuel pf now bs baseDate count offsetMinutes rest slots)
  show ?case
  proof (intro impI)
    assume lv: "list_all (\<lambda>(k, b). live now b) bs"
    assume r: "getNearbyAvailableSlots_loop fuel pf now bs baseDate count (offsetMinutes # rest) slots = Some (sl, bs')"
    show "bs' = bs"
    proof (cases "count \<le> length slots")
      case True
      with r show ?thesis by (simp add: getNearbyAvailableSlots_loop.simps)
    next
      case False
      from r False obtain av bsm where
        c: "checkAvailability fuel pf now bs (baseDate + offsetMinutes * 60000) = Some (av, bsm)"
        and l: "getNearbyAvailableSlots_loop fuel pf now bsm baseDate count rest
                  (if promise_available av
                   then slots @ [\<lparr>slot_date = baseDate + offsetMinutes * 60000,
                                  displayTime = formatDisplayTime pf now (baseDate + offsetMinutes * 60000),
                                  offsetFromRequested = Some offsetMinutes\<rparr>]
                   else slots) = Some (sl, bs')"
        by (auto simp: getNearbyAvailableSlots_loop.simps Let_def split: option.splits)
      have m: "bsm = bs" using 4(1)[OF False refl] c lv by simp
      show ?thesis using 4(2)[OF False refl c refl] l lv unfolding m by simp
    qed
  qed
next
  case (5 fuel pf now bs testDate0 count slots)
  show ?case
  proof (intro impI)
    assume r: "getNextAvailableSlots_loop fuel pf now bs testDate0 count slots = Some (sl, bs')"
    show "bs' = bs"
    proof (cases "length slots < count")
      case False
      with r show ?thesis by (simp add: getNextAvailableSlots_loop.simps)
    next
      case True
      then have "getNextAvailableSlots_loop fuel pf now bs testDate0 count slots = None"
        by (rule getNextAvailableSlots_loop_starves)
      with r show ?thesis by simp
    qed
  qed
qed

lemma hasConflictWithBuffer_shift:
  assumes "hasConflictWithBuffer bs t"
  shows "hasConflictWithBuffer bs (t + 30 * 60000) \<or> hasConflictWithBuffer bs (t + - 30 * 60000)"
proof -
  from assms obtain k b where kb: "(k, b) \<in> set bs"
    and w: "date b - 40 * minute_ms < t" "t < date b + 40 * minute_ms"
    unfolding hasConflictWithBuffer_window by auto
  show ?thesis
  proof (cases "t < date b + 10 * minute_ms")
    case True
    with w kb have "hasConflictWithBuffer bs (t + 30 * 60000)"
      unfolding hasConflictWithBuffer_window by (auto simp: minute_ms_def intro!: bexI [of _ "(k, b)"])
    then show ?thesis ..
  next
    case False
    with w kb have "hasConflictWithBuffer bs (t + - 30 * 60000)"
      unfolding hasConflictWithBuffer_window by (auto simp: minute_ms_def intro!: bexI [of _ "(k, b)"])
    then show ?thesis ..
  qed
qed

lemma getNearbyAvailableSlots_loop_conflict:
  assumes lv: "list_all (\<lambda>(k, b). live now b) bs"
      and cf: "hasConflictWithBuffer bs t"
      and ih: "\<And>u. hasConflictWithBuffer bs u \<Longrightarrow> checkAvailability fuel pf now bs u = None"
  shows "getNearbyAvailableSlots_loop fuel pf now bs t 3 searchOffsets [] = None"
proof (cases "checkAvailability fuel pf now bs (t + 30 * 60000)")
  case None
  then show ?thesis
    unfolding searchOffsets_def
    by (subst getNearbyAvailableSlots_loop.simps) (simp add: Let_def)
next
  case (Some r)
  obtain av bsm where r: "r = (av, bsm)" by (cases r)
  have m: "bsm = bs" using checkAvailability_all_live(1) [of now bs fuel pf "t + 30 * 60000" av bsm] lv Some r by simp
  have "\<not> hasConflictWithBuffer bs (t + 30 * 60000)" using ih [of "t + 30 * 60000"] Some by auto
  with hasConflictWithBuffer_shift [OF cf] have "hasConflictWithBuffer bs (t + - 30 * 60000)" by simp
  then have n: "checkAvailability fuel pf now bs (t + - 30 * 60000) = None" by (rule ih)
  from Some r m have s: "checkAvailability fuel pf now bs (t + 30 * 60000) = Some (av, bs)" by simp
  show ?thesis
    unfolding searchOffsets_def
    apply (subst getNearbyAvailableSlots_loop.simps)
    apply (subst getNearbyAvailableSlots_loop.simps)
    apply (insert s n)
    apply (simp add: Let_def promise_available_def)
    done
qed

lemma checkAvailability_conflict_hangs:
  assumes lv: "list_all (\<lambda>(k, b). live now b) bs"
  shows "hasConflictWithBuffer bs t \<Longrightarrow> checkAvailability fuel pf now bs t = None"
proof (induction fuel arbitrary: t)
  case 0
  show ?case by (simp add: checkAvailability.simps)
next
  case (Suc fuel)
  have e: "isSlotBooked now bs (getSlotKey t) = (fst (isSlotBooked now bs (getSlotKey t)), bs)"
    using isSlotBooked_all_live [OF lv, of "getSlotKey t"] by (metis prod.collapse)
  have l: "getNearbyAvailableSlots_loop fuel pf now bs t 3 searchOffsets [] = None"
    using lv Suc.prems Suc.IH by (rule getNearbyAvailableSlots_loop_conflict)
  show ?case
  proof (cases "isBusinessHour (getDayName t) (getTimeString t)")
    case False
    then show ?thesis by (rule checkAvailability_closed_hangs)
  next
    case True
    show ?thesis
      apply (subst checkAvailability.simps)
      apply (subst e)
      apply (simp add: True l Suc.prems)
      done
  qed
qed

text \<open>
  The failing input of C2: 10:00 of Monday 5 January 2026 is confirmed and 09:55 is asked
  for. The instant is within business hours, its own bucket (09:30) is free, and it lies
  both in the closed interval from 09:50 to 10:40 and within 40 minutes of the booking,
  so the buffer test holds; the call does not return, whatever the fuel: the probe at
  10:25 falls in the booked bucket, and its own probe 30 minutes earlier is 09:55 again.
\<close>

lemma checkAvailability_conflict_hangs_example:
  "isBusinessHour (getDayName (20458 * day_ms + 9 * hour_ms + 55 * minute_ms))
      (getTimeString (20458 * day_ms + 9 * hour_ms + 55 * minute_ms))
   \<and> isSlotBooked (20458 * day_ms + 9 * hour_ms)
        [(20458 * day_ms + 10 * hour_ms, Confirmed ''s1'' (20458 * day_ms + 10 * hour_ms) (20457 * day_ms))]
        (getSlotKey (20458 * day_ms + 9 * hour_ms + 55 * minute_ms))
      = (False, [(20458 * day_ms + 10 * hour_ms, Confirmed ''s1'' (20458 * day_ms + 10 * hour_ms) (20457 * day_ms))])
   \<and> (20458 * day_ms + 10 * hour_ms) - 10 * minute_ms \<le> 20458 * day_ms + 9 * hour_ms + 55 * minute_ms
   \<and> 20458 * day_ms + 9 * hour_ms + 55 * minute_ms \<le> (20458 * day_ms + 10 * hour_ms) + (30 + 10) * minute_ms
   \<and> hasConflictWithBuffer
        [(20458 * day_ms + 10 * hour_ms, Confirmed ''s1'' (20458 * day_ms + 10 * hour_ms) (20457 * day_ms))]
        (20458 * day_ms + 9 * hour_ms + 55 * minute_ms)
   \<and> checkAvailability fuel pf (20458 * day_ms + 9 * hour_ms)
        [(20458 * day_ms + 10 * hour_ms, Confirmed ''s1'' (20458 * day_ms + 10 * hour_ms) (20457 * day_ms))]
        (20458 * day_ms + 9 * hour_ms + 55 * minute_ms) = None"
proof -
  let ?bs = "[(20458 * day_ms + 10 * hour_ms, Confirmed ''s1'' (20458 * day_ms + 10 * hour_ms) (20457 * day_ms))]"
  let ?now = "20458 * day_ms + 9 * hour_ms"
  let ?t = "20458 * day_ms + 9 * hour_ms + 55 * minute_ms"
  have hours: "isBusinessHour (getDayName ?t) (getTimeString ?t)"
    by (simp add: clock_defs slot_defs)
  have own: "isSlotBooked ?now ?bs (getSlotKey ?t) = (False, ?bs)"
    by (simp add: clock_defs slot_defs)
  have fresh: "list_all (\<lambda>(k, b). live ?now b) ?bs"
    by (simp add: live_def)
  have cf: "hasConflictWithBuffer ?bs ?t"
    by (simp add: clock_defs slot_defs)
  have "checkAvailability fuel pf ?now ?bs ?t = None"
    using fresh cf by (rule checkAvailability_conflict_hangs)
  moreover have "(20458 * day_ms + 10 * hour_ms) - 10 * minute_ms \<le> ?t"
    and "?t \<le> (20458 * day_ms + 10 * hour_ms) + (30 + 10) * minute_ms"
    by (simp_all add: clock_defs)
  ultimately show ?thesis
    using hours own cf by blast
qed

text \<open>
  C2 (what the code does). Take an instant within business hours whose own half-hour
  bucket holds no live entry, and a map in which no expired reservation lingers. The
  buffer test of \<^verbatim>\<open>checkAvailability\<close> holds exactly when the instant lies strictly between
  40 minutes before and 40 minutes after the start of some live booking: the requested
  visit of 30 minutes, padded by the 10 minute buffer on both sides, overlaps the booked
  30 minutes. When the test holds, \<^verbatim>\<open>checkAvailability\<close> does not return: it asks
  \<^verbatim>\<open>getNearbyAvailableSlots\<close> for suggestions, one of whose first two probes is too close
  to the same booking again. So the \<^verbatim>\<open>too_close_to_existing\<close> outcome is never reported,
  for any fuel; and an instant that passes the test on a day with fewer than 20 bookings
  is reported available.
\<close>

theorem checkAvailability_buffer_conflict:
  assumes hours: "isBusinessHour (getDayName t) (getTimeString t)"
      and own: "isSlotBooked now bs (getSlotKey t) = (False, bs1)"
      and fresh: "list_all (\<lambda>(k, b). live now b) bs1"
  shows "(hasConflictWithBuffer bs1 t \<longleftrightarrow>
            (\<exists>(k, b) \<in> set bs1. live now b \<and> date b - 40 * minute_ms < t \<and> t < date b + 40 * minute_ms))
       \<and> (hasConflictWithBuffer bs1 t \<longrightarrow> checkAvailability fuel pf now bs t = None)
       \<and> (\<forall>m s bs'. checkAvailability fuel pf now bs t
              \<noteq> Some (Promise (Unavailable too_close_to_existing m s), bs'))
       \<and> (\<not> hasConflictWithBuffer bs1 t \<and> getDailyAppointmentCount bs1 t < 20 \<longrightarrow>
             checkAvailability (Suc fuel) pf now bs t
               = Some (Promise (Available \<lparr>details_date = t, duration = slotDuration,
                                  veterinarian = assignVeterinarian t\<rparr>), bs1))"
proof (intro conjI)
  show "hasConflictWithBuffer bs1 t \<longleftrightarrow>
          (\<exists>(k, b) \<in> set bs1. live now b \<and> date b - 40 * minute_ms < t \<and> t < date b + 40 * minute_ms)"
    using fresh unfolding hasConflictWithBuffer_window list_all_iff by fastforce
next
  have hang: "checkAvailability fuel pf now bs t = None" if cf: "hasConflictWithBuffer bs1 t"
  proof (cases fuel)
    case 0
    then show ?thesis by (simp add: checkAvailability.simps)
  next
    case (Suc f)
    have "getNearbyAvailableSlots_loop f pf now bs1 t 3 searchOffsets [] = None"
      using fresh cf checkAvailability_conflict_hangs [OF fresh]
      by (rule getNearbyAvailableSlots_loop_conflict)
    then show ?thesis
      unfolding Suc
      by (subst checkAvailability.simps) (simp add: hours own cf)
  qed
  then show "hasConflictWithBuffer bs1 t \<longrightarrow> checkAvailability fuel pf now bs t = None"
    by simp
  show "\<forall>m s bs'. checkAvailability fuel pf now bs t
          \<noteq> Some (Promise (Unavailable too_close_to_existing m s), bs')"
  proof (cases "hasConflictWithBuffer bs1 t")
    case True
    then show ?thesis using hang by simp
  next
    case False
    show ?thesis
    proof (cases fuel)
      case 0
      then show ?thesis by (simp add: checkAvailability.simps)
    next
      case (Suc f)
      show ?thesis
        unfolding Suc
        by (subst checkAvailability.simps) (auto simp: hours own False split: option.splits)
    qed
  qed
  show "\<not> hasConflictWithBuffer bs1 t \<and> getDailyAppointmentCount bs1 t < 20 \<longrightarrow>
          checkAvailability (Suc fuel) pf now bs t
            = Some (Promise (Available \<lparr>details_date = t, duration = slotDuration,
                               veterinarian = assignVeterinarian t\<rparr>), bs1)"
    by (subst checkAvailability.simps) (simp add: hours own)
qed

text \<open>
  The witness: 10:00 of Monday 5 January 2026 is confirmed. At 09:55 the test holds and
  the call with fuel 3 has not returned; at 10:40 the test fails and the call returns
  available.
\<close>

theorem checkAvailability_buffer_conflict_witness:
  "isBusinessHour (getDayName (20458 * day_ms + 9 * hour_ms + 55 * minute_ms))
      (getTimeString (20458 * day_ms + 9 * hour_ms + 55 * minute_ms))
   \<and> isSlotBooked (20458 * day_ms + 9 * hour_ms)
        [(20458 * day_ms + 10 * hour_ms, Confirmed ''s1'' (20458 * day_ms + 10 * hour_ms) (20457 * day_ms))]
        (getSlotKey (20458 * day_ms + 9 * hour_ms + 55 * minute_ms))
      = (False, [(20458 * day_ms + 10 * hour_ms, Confirmed ''s1'' (20458 * day_ms + 10 * hour_ms) (20457 * day_ms))])
   \<and> list_all (\<lambda>(k, b). live (20458 * day_ms + 9 * hour_ms) b)
        [(20458 * day_ms + 10 * hour_ms, Confirmed ''s1'' (20458 * day_ms + 10 * hour_ms) (20457 * day_ms))]
   \<and> hasConflictWithBuffer
        [(20458 * day_ms + 10 * hour_ms, Confirmed ''s1'' (20458 * day_ms + 10 * hour_ms) (20457 * day_ms))]
        (20458 * day_ms + 9 * hour_ms + 55 * minute_ms)
   \<and> checkAvailability 3 plainPlatform (20458 * day_ms + 9 * hour_ms)
        [(20458 * day_ms + 10 * hour_ms, Confirmed ''s1'' (20458 * day_ms + 10 * hour_ms) (20457 * day_ms))]
        (20458 * day_ms + 9 * hour_ms + 55 * minute_ms) = None
   \<and> isBusinessHour (getDayName (20458 * day_ms + 10 * hour_ms + 40 * minute_ms))
      (getTimeString (20458 * day_ms + 10 * hour_ms + 40 * minute_ms))
   \<and> isSlotBooked (20458 * day_ms + 9 * hour_ms)
        [(20458 * day_ms + 10 * hour_ms, Confirmed ''s1'' (20458 * day_ms + 10 * hour_ms) (20457 * day_ms))]
        (getSlotKey (20458 * day_ms + 10 * hour_ms + 40 * minute_ms))
      = (False, [(20458 * day_ms + 10 * hour_ms, Confirmed ''s1'' (20458 * day_ms + 10 * hour_ms) (20457 * day_ms))])
   \<and> \<not> hasConflictWithBuffer
        [(20458 * day_ms + 10 * hour_ms, Confirmed ''s1'' (20458 * day_ms + 10 * hour_ms) (20457 * day_ms))]
        (20458 * day_ms + 10 * hour_ms + 40 * minute_ms)
   \<and> getDailyAppointmentCount
        [(20458 * day_ms + 10 * hour_ms, Confirmed ''s1'' (20458 * day_ms + 10 * hour_ms) (20457 * day_ms))]
        (20458 * day_ms + 10 * hour_ms + 40 * minute_ms) < 20
   \<and> checkAvailability 1 plainPlatform (20458 * day_ms + 9 * hour_ms)
        [(20458 * day_ms + 10 * hour_ms, Confirmed ''s1'' (20458 * day_ms + 10 * hour_ms) (20457 * day_ms))]
        (20458 * day_ms + 10 * hour_ms + 40 * minute_ms)
      = Some (Promise (Available \<lparr>details_date = 20458 * day_ms + 10 * hour_ms + 40 * minute_ms,
                         duration = slotDuration,
                         veterinarian = assignVeterinarian (20458 * day_ms + 10 * hour_ms + 40 * minute_ms)\<rparr>),
              [(20458 * day_ms + 10 * hour_ms, Confirmed ''s1'' (20458 * day_ms + 10 * hour_ms) (20457 * day_ms))])"
proof -
  let ?bs = "[(20458 * day_ms + 10 * hour_ms, Confirmed ''s1'' (20458 * day_ms + 10 * hour_ms) (20457 * day_ms))]"
  let ?now = "20458 * day_ms + 9 * hour_ms"
  let ?t = "20458 * day_ms + 9 * hour_ms + 55 * minute_ms"
  let ?u = "20458 * day_ms + 10 * hour_ms + 40 * minute_ms"
  have hours: "isBusinessHour (getDayName ?t) (getTimeString ?t)"
    by (simp add: clock_defs slot_defs)
  have own: "isSlotBooked ?now ?bs (getSlotKey ?t) = (False, ?bs)"
    by (simp add: clock_defs slot_defs)
  have fresh: "list_all (\<lambda>(k, b). live ?now b) ?bs"
    by (simp add: live_def)
  have near: "\<exists>(k, b) \<in> set ?bs. live ?now b \<and> date b - 40 * minute_ms < ?t \<and> ?t < date b + 40 * minute_ms"
    by (simp add: live_def clock_defs)
  note T = checkAvailability_buffer_conflict [OF hours own fresh, of 2 plainPlatform]
  have cf: "hasConflictWithBuffer ?bs ?t"
    using T near by blast
  have hang: "checkAvailability 3 plainPlatform ?now ?bs ?t = None"
    using checkAvailability_buffer_conflict [OF hours own fresh, of 3 plainPlatform] cf by blast
  have hours': "isBusinessHour (getDayName ?u) (getTimeString ?u)"
    by (simp add: clock_defs slot_defs)
  have own': "isSlotBooked ?now ?bs (getSlotKey ?u) = (False, ?bs)"
    by (simp add: clock_defs slot_defs)
  have free: "\<not> hasConflictWithBuffer ?bs ?u"
    by (simp add: clock_defs slot_defs)
  have few: "getDailyAppointmentCount ?bs ?u < 20"
    by (simp add: clock_defs slot_defs)
  have avail: "checkAvailability 1 plainPlatform ?now ?bs ?u
      = Some (Promise (Available \<lparr>details_date = ?u, duration = slotDuration,
                         veterinarian = assignVeterinarian ?u\<rparr>), ?bs)"
    using checkAvailability_buffer_conflict [OF hours' own' fresh, of 0 plainPlatform] free few by simp
  show ?thesis
    using hours own fresh cf hang hours' own' free few avail by blast
qed

text \<open>
  The window of the test is not the interval of the claim either. With 10:00 confirmed,
  10:40 lies in the closed interval from 09:50 to 10:40, yet \<^verbatim>\<open>checkAvailability\<close> reports
  it available; and 09:40 lies outside that interval, yet the buffer test holds there.
\<close>

theorem checkAvailability_buffer_conflict_counterexample:
  "isBusinessHour (getDayName (20458 * day_ms + 10 * hour_ms + 40 * minute_ms))
      (getTimeString (20458 * day_ms + 10 * hour_ms + 40 * minute_ms))
   \<and> fst (isSlotBooked (20458 * day_ms + 9 * hour_ms)
        [(20458 * day_ms + 10 * hour_ms, Confirmed ''s1'' (20458 * day_ms + 10 * hour_ms) (20457 * day_ms))]
        (getSlotKey (20458 * day_ms + 10 * hour_ms + 40 * minute_ms))) = False
   \<and> (20458 * day_ms + 10 * hour_ms) - 10 * minute_ms \<le> 20458 * day_ms + 10 * hour_ms + 40 * minute_ms
   \<and> 20458 * day_ms + 10 * hour_ms + 40 * minute_ms \<le> (20458 * day_ms + 10 * hour_ms) + (30 + 10) * minute_ms
   \<and> map_option (\<lambda>r. (available (await (fst r)), snd r))
        (checkAvailability 1 plainPlatform (20458 * day_ms + 9 * hour_ms)
           [(20458 * day_ms + 10 * hour_ms, Confirmed ''s1'' (20458 * day_ms + 10 * hour_ms) (20457 * day_ms))]
           (20458 * day_ms + 10 * hour_ms + 40 * minute_ms))
      = Some (True,
              [(20458 * day_ms + 10 * hour_ms, Confirmed ''s1'' (20458 * day_ms + 10 * hour_ms) (20457 * day_ms))])
   \<and> isBusinessHour (getDayName (20458 * day_ms + 9 * hour_ms + 40 * minute_ms))
      (getTimeString (20458 * day_ms + 9 * hour_ms + 40 * minute_ms))
   \<and> fst (isSlotBooked (20458 * day_ms + 9 * hour_ms)
        [(20458 * day_ms + 10 * hour_ms, Confirmed ''s1'' (20458 * day_ms + 10 * hour_ms) (20457 * day_ms))]
        (getSlotKey (20458 * day_ms + 9 * hour_ms + 40 * minute_ms))) = False
   \<and> 20458 * day_ms + 9 * hour_ms + 40 * minute_ms < (20458 * day_ms + 10 * hour_ms) - 10 * minute_ms
   \<and> hasConflictWithBuffer
        [(20458 * day_ms + 10 * hour_ms, Confirmed ''s1'' (20458 * day_ms + 10 * hour_ms) (20457 * day_ms))]
        (20458 * day_ms + 9 * hour_ms + 40 * minute_ms)"
  by (simp add: checkAvailability.simps clock_defs slot_defs)


subsection \<open>What the operations keep\<close>

lemma slots_step_refl: "slots_step bs bs"
  by (simp add: slots_step_def keeps_confirmed_def)

lemma slots_step_trans: "slots_step a b \<Longrightarrow> slots_step b c \<Longrightarrow> slots_step a c"
  unfolding slots_step_def keeps_confirmed_def by blast

lemma isSlotBooked_step: "slots_step bs (snd (isSlotBooked now bs k))"
  by (auto simp: slots_step_def keeps_confirmed_def isSlotBooked_def distinct_delete delete_conv'
           split: option.splits booking.splits)

lemma reserveSlot_distinct:
  "distinct (map fst bs) \<Longrightarrow> distinct (map fst (fst (snd (reserveSlot now bs t sid))))"
  by (simp add: reserveSlot_def Let_def distinct_update)

lemma reserveSlot_other_keys:
  "k \<noteq> getSlotKey t \<Longrightarrow> map_of (fst (snd (reserveSlot now bs t sid))) k = map_of bs k"
  by (simp add: reserveSlot_def Let_def update_conv')

lemma reserveSlot_after_check:
  "fst (isSlotBooked now bs (getSlotKey t)) = False \<Longrightarrow>
     keeps_confirmed bs (fst (snd (reserveSlot now bs t sid)))"
  by (auto simp: keeps_confirmed_def reserveSlot_def Let_def update_conv' isSlotBooked_def
           split: option.splits booking.splits if_splits)

lemma confirmReservation_step:
  "confirmReservation now bs k sid = Inr bs' \<Longrightarrow> slots_step bs bs'"
  by (auto simp: slots_step_def keeps_confirmed_def confirmReservation_def update_conv' distinct_update
           split: option.splits if_splits)

lemma releaseReservation_step: "slots_step bs (releaseReservation bs k sid)"
  by (auto simp: slots_step_def keeps_confirmed_def releaseReservation_def delete_conv' distinct_delete
           split: option.splits booking.splits)

lemma map_of_filter_keeps:
  "map_of bs k = Some v \<Longrightarrow> P (k, v) \<Longrightarrow> map_of (filter P bs) k = Some v"
  by (induction bs) (auto split: if_splits)

lemma cleanupSweep_distinct: "distinct (map fst bs) \<Longrightarrow> distinct (map fst (cleanupSweep now bs))"
  by (simp add: cleanupSweep_def distinct_map_filter)

lemma cleanupSweep_retains:
  "map_of bs k = Some (Confirmed s d c) \<Longrightarrow> now - 24 * 60 * 60 * 1000 \<le> d \<Longrightarrow>
     map_of (cleanupSweep now bs) k = Some (Confirmed s d c)"
  unfolding cleanupSweep_def
  by (rule map_of_filter_keeps) (simp_all add: cleanup_removes_def)

lemma checkAvailability_step:
  "(checkAvailability fuel pf now bs t = Some (p, bs') \<longrightarrow> slots_step bs bs')"
  "(getNearbyAvailableSlots_loop fuel pf now bs base count offs slots = Some (sl, bs') \<longrightarrow> slots_step bs bs')"
  "(getNextAvailableSlots_loop fuel pf now bs t0 count slots = Some (sl, bs') \<longrightarrow> slots_step bs bs')"
proof (induction fuel pf now bs t and fuel pf now bs base count offs slots and fuel pf now bs t0 count slots
        arbitrary: p bs' and sl bs' and sl bs'
        rule: checkAvailability_getNearbyAvailableSlots_loop_getNextAvailableSlots_loop.induct)
  case (1 pf now bs requestedDate)
  then show ?case by (simp add: checkAvailability.simps)
next
  case (2 fuel pf now bs requestedDate)
  obtain booked bs1 where b: "isSlotBooked now bs (getSlotKey requestedDate) = (booked, bs1)"
    by (cases "isSlotBooked now bs (getSlotKey requestedDate)")
  have s1: "slots_step bs bs1" using isSlotBooked_step [of bs now "getSlotKey requestedDate"] b by simp
  show ?case
  proof
    assume r: "checkAvailability (Suc fuel) pf now bs requestedDate = Some (p, bs')"
    show "slots_step bs bs'"
    proof (cases "isBusinessHour (getDayName requestedDate) (getTimeString requestedDate)")
      case False
      with r 2(1) show ?thesis
        by (auto simp: checkAvailability.simps split: option.splits)
    next
      case True
      with r b have "slots_step bs1 bs'"
        using 2(2)[OF _ b[symmetric] refl] 2(3)[OF _ b[symmetric] refl] 2(4)[OF _ b[symmetric] refl]
        by (auto simp: checkAvailability.simps slots_step_refl split: option.splits if_splits)
      with s1 show ?thesis by (rule slots_step_trans)
    qed
  qed
next
  case (3 fuel pf now bs baseDate count slots)
  then show ?case by (simp add: getNearbyAvailableSlots_loop.simps slots_step_refl)
next
  case (4 fuel pf now bs baseDate count offsetMinutes rest slots)
  show ?case
  proof
    assume r: "getNearbyAvailableSlots_loop fuel pf now bs baseDate count (offsetMinutes # rest) slots = Some (sl, bs')"
    show "slots_step bs bs'"
    proof (cases "count \<le> length slots")
      case True
      with r show ?thesis by (simp add: getNearbyAvailableSlots_loop.simps slots_step_refl)
    next
      case False
      from r False obtain av bsm where
        c: "checkAvailability fuel pf now bs (baseDate + offsetMinutes * 60000) = Some (av, bsm)"
        and l: "getNearbyAvailableSlots_loop fuel pf now bsm baseDate count rest
                  (if promise_available av
                   then slots @ [\<lparr>slot_date = baseDate + offsetMinutes * 60000,
                                  displayTime = formatDisplayTime pf now (baseDate + offsetMinutes * 60000),
                                  offsetFromRequested = Some offsetMinutes\<rparr>]
                   else slots) = Some (sl, bs')"
        by (auto simp: getNearbyAvailableSlots_loop.simps Let_def split: option.splits)
      have "slots_step bs bsm" using 4(1)[OF False refl] c by simp
      moreover have "slots_step bsm bs'" using 4(2)[OF False refl c refl] l by simp
      ultimately show ?thesis by (rule slots_step_trans)
    qed
  qed
next
  case (5 fuel pf now bs testDate0 count slots)
  show ?case
  proof
    assume r: "getNextAvailableSlots_loop fuel pf now bs testDate0 count slots = Some (sl, bs')"
    show "slots_step bs bs'"
    proof (cases "length slots < count")
      case False
      with r show ?thesis by (simp add: getNextAvailableSlots_loop.simps slots_step_refl)
    next
      case True
      then have "getNextAvailableSlots_loop fuel pf now bs testDate0 count slots = None"
        by (rule getNextAvailableSlots_loop_starves)
      with r show ?thesis by simp
    qed
  qed
qed


text \<open>
  C6, amended. The map holds one entry per slot key, and every operation keeps it so.
  \<^verbatim>\<open>checkAvailability\<close> (whenever it returns), \<^verbatim>\<open>confirmReservation\<close>,
  \<^verbatim>\<open>releaseReservation\<close> and the lazy removal in \<^verbatim>\<open>isSlotBooked\<close> keep every confirmed
  booking; the sweep keeps every confirmed booking whose date is within the last 24
  hours. \<^verbatim>\<open>reserveSlot\<close> writes its key without looking: it keeps the confirmed bookings
  at all other keys, and the one at its own key only when \<^verbatim>\<open>isSlotBooked\<close> answers false
  there, which is what the chat controller has checked before it reserves.
\<close>

theorem slot_operations_keep_confirmed:
  assumes "distinct (map fst bs)"
  shows "(\<forall>p bs'. checkAvailability fuel pf now bs t = Some (p, bs') \<longrightarrow>
            distinct (map fst bs') \<and> keeps_confirmed bs bs')
       \<and> distinct (map fst (snd (isSlotBooked now bs k)))
       \<and> keeps_confirmed bs (snd (isSlotBooked now bs k))
       \<and> distinct (map fst (fst (snd (reserveSlot now bs t sid))))
       \<and> (\<forall>k'. k' \<noteq> getSlotKey t \<longrightarrow> map_of (fst (snd (reserveSlot now bs t sid))) k' = map_of bs k')
       \<and> (fst (isSlotBooked now bs (getSlotKey t)) = False \<longrightarrow>
            keeps_confirmed bs (fst (snd (reserveSlot now bs t sid))))
       \<and> (\<forall>bs'. confirmReservation now bs k sid = Inr bs' \<longrightarrow>
            distinct (map fst bs') \<and> keeps_confirmed bs bs')
       \<and> distinct (map fst (releaseReservation bs k sid))
       \<and> keeps_confirmed bs (releaseReservation bs k sid)
       \<and> distinct (map fst (cleanupSweep now bs))
       \<and> (\<forall>s d c. map_of bs k = Some (Confirmed s d c) \<and> now - 24 * 60 * 60 * 1000 \<le> d \<longrightarrow>
            map_of (cleanupSweep now bs) k = Some (Confirmed s d c))"
proof -
  have "\<forall>p bs'. checkAvailability fuel pf now bs t = Some (p, bs') \<longrightarrow>
            distinct (map fst bs') \<and> keeps_confirmed bs bs'"
    using assms checkAvailability_step(1) [of fuel pf now bs t] by (simp add: slots_step_def)
  moreover have "distinct (map fst (snd (isSlotBooked now bs k)))"
    and "keeps_confirmed bs (snd (isSlotBooked now bs k))"
    using assms isSlotBooked_step [of bs now k] by (simp_all add: slots_step_def)
  moreover have "\<forall>bs'. confirmReservation now bs k sid = Inr bs' \<longrightarrow>
            distinct (map fst bs') \<and> keeps_confirmed bs bs'"
    using assms confirmReservation_step [of now bs k sid] by (simp add: slots_step_def)
  moreover have "distinct (map fst (releaseReservation bs k sid))"
    and "keeps_confirmed bs (releaseReservation bs k sid)"
    using assms releaseReservation_step [of bs k sid] by (simp_all add: slots_step_def)
  moreover have "distinct (map fst (fst (snd (reserveSlot now bs t sid))))"
    using assms by (rule reserveSlot_distinct)
  moreover have "\<forall>k'. k' \<noteq> getSlotKey t \<longrightarrow> map_of (fst (snd (reserveSlot now bs t sid))) k' = map_of bs k'"
    by (simp add: reserveSlot_other_keys)
  moreover have "fst (isSlotBooked now bs (getSlotKey t)) = False \<longrightarrow>
            keeps_confirmed bs (fst (snd (reserveSlot now bs t sid)))"
    by (simp add: reserveSlot_after_check)
  moreover have "distinct (map fst (cleanupSweep now bs))"
    using assms by (rule cleanupSweep_distinct)
  moreover have "\<forall>s d c. map_of bs k = Some (Confirmed s d c) \<and> now - 24 * 60 * 60 * 1000 \<le> d \<longrightarrow>
            map_of (cleanupSweep now bs) k = Some (Confirmed s d c)"
    using cleanupSweep_retains [of bs k _ _ _ now] by blast
  ultimately show ?thesis
    by blast
qed

text \<open>
  The witness: 10:00 of Monday 5 January 2026 is confirmed for session s1 and 11:00 is
  held by session s2, at 09:00. The free 14:00 is checked and then reserved by s3, s2
  confirms, s2's release and the sweep run: the booking of s1 is there after each.
\<close>

theorem slot_operations_keep_confirmed_witness:
  "distinct (map fst
      [(20458 * day_ms + 10 * hour_ms, Confirmed ''s1'' (20458 * day_ms + 10 * hour_ms) (20457 * day_ms)),
       (20458 * day_ms + 11 * hour_ms, Reserved ''s2'' (20458 * day_ms + 9 * hour_ms + 5 * minute_ms)
          (20458 * day_ms + 11 * hour_ms))])
   \<and> map_option snd (checkAvailability 1 plainPlatform (20458 * day_ms + 9 * hour_ms)
        [(20458 * day_ms + 10 * hour_ms, Confirmed ''s1'' (20458 * day_ms + 10 * hour_ms) (20457 * day_ms)),
         (20458 * day_ms + 11 * hour_ms, Reserved ''s2'' (20458 * day_ms + 9 * hour_ms + 5 * minute_ms)
            (20458 * day_ms + 11 * hour_ms))]
        (20458 * day_ms + 14 * hour_ms))
      = Some [(20458 * day_ms + 10 * hour_ms, Confirmed ''s1'' (20458 * day_ms + 10 * hour_ms) (20457 * day_ms)),
              (20458 * day_ms + 11 * hour_ms, Reserved ''s2'' (20458 * day_ms + 9 * hour_ms + 5 * minute_ms)
                 (20458 * day_ms + 11 * hour_ms))]
   \<and> fst (isSlotBooked (20458 * day_ms + 9 * hour_ms)
        [(20458 * day_ms + 10 * hour_ms, Confirmed ''s1'' (20458 * day_ms + 10 * hour_ms) (20457 * day_ms)),
         (20458 * day_ms + 11 * hour_ms, Reserved ''s2'' (20458 * day_ms + 9 * hour_ms + 5 * minute_ms)
            (20458 * day_ms + 11 * hour_ms))]
        (getSlotKey (20458 * day_ms + 14 * hour_ms))) = False
   \<and> keeps_confirmed
        [(20458 * day_ms + 10 * hour_ms, Confirmed ''s1'' (20458 * day_ms + 10 * hour_ms) (20457 * day_ms)),
         (20458 * day_ms + 11 * hour_ms, Reserved ''s2'' (20458 * day_ms + 9 * hour_ms + 5 * minute_ms)
            (20458 * day_ms + 11 * hour_ms))]
        (fst (snd (reserveSlot (20458 * day_ms + 9 * hour_ms)
           [(20458 * day_ms + 10 * hour_ms, Confirmed ''s1'' (20458 * day_ms + 10 * hour_ms) (20457 * day_ms)),
            (20458 * day_ms + 11 * hour_ms, Reserved ''s2'' (20458 * day_ms + 9 * hour_ms + 5 * minute_ms)
               (20458 * day_ms + 11 * hour_ms))]
           (20458 * day_ms + 14 * hour_ms) ''s3'')))
   \<and> confirmReservation (20458 * day_ms + 9 * hour_ms)
        [(20458 * day_ms + 10 * hour_ms, Confirmed ''s1'' (20458 * day_ms + 10 * hour_ms) (20457 * day_ms)),
         (20458 * day_ms + 11 * hour_ms, Reserved ''s2'' (20458 * day_ms + 9 * hour_ms + 5 * minute_ms)
            (20458 * day_ms + 11 * hour_ms))]
        (20458 * day_ms + 11 * hour_ms) ''s2''
      = Inr [(20458 * day_ms + 10 * hour_ms, Confirmed ''s1'' (20458 * day_ms + 10 * hour_ms) (20457 * day_ms)),
             (20458 * day_ms + 11 * hour_ms, Confirmed ''s2'' (20458 * day_ms + 11 * hour_ms) (20458 * day_ms + 9 * hour_ms))]
   \<and> keeps_confirmed
        [(20458 * day_ms + 10 * hour_ms, Confirmed ''s1'' (20458 * day_ms + 10 * hour_ms) (20457 * day_ms)),
         (20458 * day_ms + 11 * hour_ms, Reserved ''s2'' (20458 * day_ms + 9 * hour_ms + 5 * minute_ms)
            (20458 * day_ms + 11 * hour_ms))]
        [(20458 * day_ms + 10 * hour_ms, Confirmed ''s1'' (20458 * day_ms + 10 * hour_ms) (20457 * day_ms)),
         (20458 * day_ms + 11 * hour_ms, Confirmed ''s2'' (20458 * day_ms + 11 * hour_ms) (20458 * day_ms + 9 * hour_ms))]
   \<and> map_of (cleanupSweep (20458 * day_ms + 9 * hour_ms)
        [(20458 * day_ms + 10 * hour_ms, Confirmed ''s1'' (20458 * day_ms + 10 * hour_ms) (20457 * day_ms)),
         (20458 * day_ms + 11 * hour_ms, Reserved ''s2'' (20458 * day_ms + 9 * hour_ms + 5 * minute_ms)
            (20458 * day_ms + 11 * hour_ms))])
        (20458 * day_ms + 10 * hour_ms)
      = Some (Confirmed ''s1'' (20458 * day_ms + 10 * hour_ms) (20457 * day_ms))"
proof -
  let ?bs = "[(20458 * day_ms + 10 * hour_ms, Confirmed ''s1'' (20458 * day_ms + 10 * hour_ms) (20457 * day_ms)),
       (20458 * day_ms + 11 * hour_ms, Reserved ''s2'' (20458 * day_ms + 9 * hour_ms + 5 * minute_ms)
          (20458 * day_ms + 11 * hour_ms))]"
  let ?now = "20458 * day_ms + 9 * hour_ms"
  have d: "distinct (map fst ?bs)"
    by (simp add: clock_defs)
  note T = slot_operations_keep_confirmed [OF d, of 1 plainPlatform ?now "20458 * day_ms + 14 * hour_ms"
              "20458 * day_ms + 11 * hour_ms" "''s3''"]
  note U = slot_operations_keep_confirmed [OF d, of 1 plainPlatform ?now "20458 * day_ms + 14 * hour_ms"
              "20458 * day_ms + 10 * hour_ms" "''s2''"]
  note V = slot_operations_keep_confirmed [OF d, of 1 plainPlatform ?now "20458 * day_ms + 14 * hour_ms"
              "20458 * day_ms + 11 * hour_ms" "''s2''"]
  have c: "map_option snd (checkAvailability 1 plainPlatform ?now ?bs (20458 * day_ms + 14 * hour_ms)) = Some ?bs"
    by (simp add: checkAvailability.simps clock_defs slot_defs)
  have f: "fst (isSlotBooked ?now ?bs (getSlotKey (20458 * day_ms + 14 * hour_ms))) = False"
    by (simp add: clock_defs slot_defs)
  have r: "keeps_confirmed ?bs (fst (snd (reserveSlot ?now ?bs (20458 * day_ms + 14 * hour_ms) ''s3'')))"
    using T f by blast
  have e: "confirmReservation ?now ?bs (20458 * day_ms + 11 * hour_ms) ''s2''
      = Inr [(20458 * day_ms + 10 * hour_ms, Confirmed ''s1'' (20458 * day_ms + 10 * hour_ms) (20457 * day_ms)),
             (20458 * day_ms + 11 * hour_ms, Confirmed ''s2'' (20458 * day_ms + 11 * hour_ms) ?now)]"
    by (simp add: confirmReservation_def clock_defs)
  have k: "keeps_confirmed ?bs
        [(20458 * day_ms + 10 * hour_ms, Confirmed ''s1'' (20458 * day_ms + 10 * hour_ms) (20457 * day_ms)),
         (20458 * day_ms + 11 * hour_ms, Confirmed ''s2'' (20458 * day_ms + 11 * hour_ms) ?now)]"
    using V e by blast
  have m: "map_of ?bs (20458 * day_ms + 10 * hour_ms)
             = Some (Confirmed ''s1'' (20458 * day_ms + 10 * hour_ms) (20457 * day_ms))"
    by simp
  have w: "?now - 24 * 60 * 60 * 1000 \<le> 20458 * day_ms + 10 * hour_ms"
    by (simp add: clock_defs)
  have s: "map_of (cleanupSweep ?now ?bs) (20458 * day_ms + 10 * hour_ms)
      = Some (Confirmed ''s1'' (20458 * day_ms + 10 * hour_ms) (20457 * day_ms))"
    using U m w by blast
  show ?thesis
    using d c f r e k s by blast
qed

text \<open>
  The claim as written fails at \<^verbatim>\<open>reserveSlot\<close>: called for an instant whose slot is
  confirmed for session s1, it replaces that booking by a reservation of session s2.
\<close>

theorem reserveSlot_displaces_confirmed_counterexample:
  "map_of [(20458 * day_ms + 10 * hour_ms, Confirmed ''s1'' (20458 * day_ms + 10 * hour_ms) (20457 * day_ms))]
     (20458 * day_ms + 10 * hour_ms)
     = Some (Confirmed ''s1'' (20458 * day_ms + 10 * hour_ms) (20457 * day_ms))
   \<and> map_of (fst (snd (reserveSlot (20458 * day_ms + 9 * hour_ms)
        [(20458 * day_ms + 10 * hour_ms, Confirmed ''s1'' (20458 * day_ms + 10 * hour_ms) (20457 * day_ms))]
        (20458 * day_ms + 10 * hour_ms + 15 * minute_ms) ''s2'')))
     (20458 * day_ms + 10 * hour_ms)
     = Some (Reserved ''s2'' (20458 * day_ms + 9 * hour_ms + 5 * minute_ms)
         (20458 * day_ms + 10 * hour_ms + 15 * minute_ms))"
  by (simp add: reserveSlot_def getSlotKey_def clock_defs)


section \<open>Properties of the cache\<close>

text \<open>
  C7. Fail-soft. When the generator fails on a miss, \<^verbatim>\<open>get\<close> returns the value of the stale
  entry that the lookup found (the hot tier's, else the warm tier's) instead of the
  failure; it passes the failure on exactly when neither tier holds an entry for the key.
\<close>

theorem cache_get_fail_soft:
  "(map_of (l1 c) (gk key) = Some e \<and> isExpired now e \<longrightarrow>
      returned (cache_get gk now now' c key (Inl err) opts) = Inr (value e)
      \<and> generatorCalls (cache_get gk now now' c key (Inl err) opts) = 1)
   \<and> (map_of (l1 c) (gk key) = None \<and> map_of (l2 c) (gk key) = Some e \<and> isExpired now e \<longrightarrow>
      returned (cache_get gk now now' c key (Inl err) opts) = Inr (value e)
      \<and> generatorCalls (cache_get gk now now' c key (Inl err) opts) = 1)
   \<and> (map_of (l1 c) (gk key) = None \<and> map_of (l2 c) (gk key) = None \<longrightarrow>
      returned (cache_get gk now now' c key (Inl err) opts) = Inl err
      \<and> generatorCalls (cache_get gk now now' c key (Inl err) opts) = 1)
   \<and> (returned (cache_get gk now now' c key (Inl err) opts) = Inl err \<longrightarrow>
      map_of (l1 c) (gk key) = None \<and> map_of (l2 c) (gk key) = None)"
  by (auto simp: cache_get_def checkLayers_def isExpired_def Let_def split: option.splits prod.splits)

text \<open>
  The witness: an entry stored at time 0 with a ttl of 100 is read at time 1000 while the
  generator fails, once from the hot tier, once from the warm tier; and an empty cache
  passes the failure on.
\<close>

theorem cache_get_fail_soft_witness:
  "isExpired 1000 \<lparr>value = ''old'', timestamp = 0, ttl = 100, hits = 0, lastAccessed = 0\<rparr>
   \<and> returned (cache_get (\<lambda>k. k) 1000 1200
        \<lparr>l1 = [(''q'', \<lparr>value = ''old'', timestamp = 0, ttl = 100, hits = 0, lastAccessed = 0\<rparr>)], l2 = [],
          stats = \<lparr>stat_hits = 0, stat_misses = 0, stat_evictions = 0, stat_apiCalls = 0, stat_savedApiCalls = 0\<rparr>\<rparr>
        ''q'' (Inl GenerationFailure) (Some 3600000)) = Inr ''old''
   \<and> returned (cache_get (\<lambda>k. k) 1000 1200
        \<lparr>l1 = [], l2 = [(''q'', \<lparr>value = ''old'', timestamp = 0, ttl = 100, hits = 0, lastAccessed = 0\<rparr>)],
          stats = \<lparr>stat_hits = 0, stat_misses = 0, stat_evictions = 0, stat_apiCalls = 0, stat_savedApiCalls = 0\<rparr>\<rparr>
        ''q'' (Inl GenerationFailure) (Some 3600000)) = Inr ''old''
   \<and> returned (cache_get (\<lambda>k. k) 1000 1200
        \<lparr>l1 = [], l2 = [],
          stats = \<lparr>stat_hits = 0, stat_misses = 0, stat_evictions = 0, stat_apiCalls = 0, stat_savedApiCalls = 0\<rparr>\<rparr>
        ''q'' (Inl GenerationFailure) (Some 3600000)) = (Inl GenerationFailure :: error + string)"
proof -
  let ?e = "\<lparr>value = ''old'', timestamp = 0, ttl = 100, hits = 0, lastAccessed = 0\<rparr>"
  let ?st = "\<lparr>stat_hits = 0, stat_misses = 0, stat_evictions = 0, stat_apiCalls = 0, stat_savedApiCalls = 0\<rparr>"
  have x: "isExpired 1000 ?e"
    by (simp add: isExpired_def)
  have a: "returned (cache_get (\<lambda>k. k) 1000 1200 \<lparr>l1 = [(''q'', ?e)], l2 = [], stats = ?st\<rparr>
             ''q'' (Inl GenerationFailure) (Some 3600000)) = Inr ''old''"
    using cache_get_fail_soft [of "\<lparr>l1 = [(''q'', ?e)], l2 = [], stats = ?st\<rparr>" "\<lambda>k. k" "''q''" ?e 1000 1200
            GenerationFailure "Some 3600000"] x
    by simp
  have b: "returned (cache_get (\<lambda>k. k) 1000 1200 \<lparr>l1 = [], l2 = [(''q'', ?e)], stats = ?st\<rparr>
             ''q'' (Inl GenerationFailure) (Some 3600000)) = Inr ''old''"
    using cache_get_fail_soft [of "\<lparr>l1 = [], l2 = [(''q'', ?e)], stats = ?st\<rparr>" "\<lambda>k. k" "''q''" ?e 1000 1200
            GenerationFailure "Some 3600000"] x
    by simp
  have c: "returned (cache_get (\<lambda>k. k) 1000 1200 \<lparr>l1 = [], l2 = [], stats = ?st\<rparr>
             ''q'' (Inl GenerationFailure) (Some 3600000)) = (Inl GenerationFailure :: error + string)"
    using cache_get_fail_soft [of "\<lparr>l1 = [], l2 = [], stats = ?st\<rparr>" "\<lambda>k. k" "''q''" ?e 1000 1200
            GenerationFailure "Some 3600000"]
    by simp
  show ?thesis
    using x a b c by blast
qed

subsection \<open>A stored value is served until its ttl has passed\<close>


















section \<open>Properties of calculateSimilarity\<close>

lemma lev_Nil2 [simp]: "levenshtein_distance xs [] = length xs"
  by (cases xs) simp_all

lemma lev_sym: "levenshtein_distance xs ys = levenshtein_distance ys xs"
  by (induction xs ys rule: levenshtein_distance.induct) (auto simp: min.commute min.left_commute)

lemma lev_insert_le: "levenshtein_distance xs (y # ys) \<le> levenshtein_distance xs ys + 1"
  by (cases xs) simp_all

lemma lev_delete_le: "levenshtein_distance (x # xs) ys \<le> levenshtein_distance xs ys + 1"
  by (cases ys) simp_all

lemma lev_drop_left: "levenshtein_distance xs ys \<le> levenshtein_distance (x # xs) ys + 1"
proof (induction ys arbitrary: xs x)
  case Nil
  then show ?case by simp
next
  case (Cons y ys)
  have a: "levenshtein_distance xs (y # ys) \<le> levenshtein_distance xs ys + 1"
    by (rule lev_insert_le)
  have b: "levenshtein_distance xs ys \<le> levenshtein_distance (x # xs) ys + 1"
    by (rule Cons.IH)
  show ?case using a b by (simp add: min_le_iff_disj)
qed

lemma lev_drop_right: "levenshtein_distance xs ys \<le> levenshtein_distance xs (y # ys) + 1"
  using lev_drop_left [of ys xs y] by (simp add: lev_sym)

lemma lev_same_head: "levenshtein_distance (x # xs) (x # ys) = levenshtein_distance xs ys"
  using lev_drop_left [of xs ys x] lev_drop_right [of xs ys x] by simp

lemma lev_refl: "levenshtein_distance xs xs = 0"
  by (induction xs) (simp_all add: lev_same_head del: levenshtein_distance.simps(3))

lemma nine_terms:
  fixes A B C D E F G H I p q :: nat
  shows "min (min (A + q) (min (B + 1) (C + 1)) + p)
           (min (min (D + q) (min (E + 1) (F + 1)) + 1) (min (G + q) (min (H + 1) (I + 1)) + 1))
       = min (min (A + p) (min (D + 1) (G + 1)) + q)
           (min (min (B + p) (min (E + 1) (H + 1)) + 1) (min (C + p) (min (F + 1) (I + 1)) + 1))"
  unfolding min_add_distrib_left
  by (simp only: min.assoc min.commute min.left_commute add.assoc add.commute add.left_commute)


lemma five_terms:
  fixes n L p q :: nat
  shows "min (n + 1 + p) (min (n + 1 + 1 + 1) (min (n + q) (min (n + 1 + 1) (L + 1)) + 1))
       = min (n + 1 + q) (min (n + 1 + 1 + 1) (min (n + p) (min (n + 1 + 1) (L + 1)) + 1))"
  unfolding min_add_distrib_left
  by (simp only: min.assoc min.commute min.left_commute add.assoc add.commute add.left_commute)

lemma lev_single_snoc:
  "levenshtein_distance [x] (ys @ [y]) =
     min (length ys + (if x = y then 0 else 1))
       (min (length ys + 1 + 1) (levenshtein_distance [x] ys + 1))"
proof (induction ys)
  case Nil
  show ?case by simp
next
  case (Cons b ys)
  let ?n = "length ys" and ?L = "levenshtein_distance [x] ys"
  let ?p = "if x = b then 0 else 1 :: nat" and ?q = "if x = y then 0 else 1 :: nat"
  have l: "levenshtein_distance [x] ((b # ys) @ [y])
             = min (?n + 1 + ?p) (min (?n + 1 + 1 + 1) (levenshtein_distance [x] (ys @ [y]) + 1))"
    by simp
  have r: "levenshtein_distance [x] (b # ys) = min (?n + ?p) (min (?n + 1 + 1) (?L + 1))"
    by simp
  have "levenshtein_distance [x] ((b # ys) @ [y])
          = min (?n + 1 + ?p) (min (?n + 1 + 1 + 1) (min (?n + ?q) (min (?n + 1 + 1) (?L + 1)) + 1))"
    unfolding l Cons.IH ..
  also have "\<dots> = min (?n + 1 + ?q) (min (?n + 1 + 1 + 1) (min (?n + ?p) (min (?n + 1 + 1) (?L + 1)) + 1))"
    by (rule five_terms)
  also have "\<dots> = min (length (b # ys) + ?q)
                     (min (length (b # ys) + 1 + 1) (levenshtein_distance [x] (b # ys) + 1))"
    unfolding r by simp
  finally show ?case .
qed

lemma lev_snoc:
  "levenshtein_distance (xs @ [x]) (ys @ [y]) =
     min (levenshtein_distance xs ys + (if x = y then 0 else 1))
       (min (levenshtein_distance xs (ys @ [y]) + 1) (levenshtein_distance (xs @ [x]) ys + 1))"
proof (induction xs ys rule: levenshtein_distance.induct)
  case (1 ys)
  show ?case
    using lev_single_snoc [of x ys y] by simp
next
  case (2 a xs)
  have "levenshtein_distance ((a # xs) @ [x]) [y] = levenshtein_distance [y] ((a # xs) @ [x])"
    by (rule lev_sym)
  also have "\<dots> = min (length (a # xs) + (if y = x then 0 else 1))
                      (min (length (a # xs) + 1 + 1) (levenshtein_distance [y] (a # xs) + 1))"
    by (rule lev_single_snoc)
  also have "\<dots> = min (length (a # xs) + (if x = y then 0 else 1))
                      (min (levenshtein_distance (a # xs) [y] + 1) (length (a # xs) + 1 + 1))"
    by (simp add: lev_sym [of "[y]"] min.commute eq_commute del: levenshtein_distance.simps)
  finally show ?case
    by (simp del: levenshtein_distance.simps(3))
next
  case (3 a xs b ys)
  let ?p = "if a = b then 0 else 1 :: nat" and ?q = "if x = y then 0 else 1 :: nat"
  have "levenshtein_distance ((a # xs) @ [x]) ((b # ys) @ [y])
          = min (levenshtein_distance (xs @ [x]) (ys @ [y]) + ?p)
              (min (levenshtein_distance (xs @ [x]) ((b # ys) @ [y]) + 1)
                   (levenshtein_distance ((a # xs) @ [x]) (ys @ [y]) + 1))"
    by simp
  also have "\<dots> = min (min (levenshtein_distance xs ys + ?q)
                          (min (levenshtein_distance xs (ys @ [y]) + 1) (levenshtein_distance (xs @ [x]) ys + 1)) + ?p)
              (min (min (levenshtein_distance xs (b # ys) + ?q)
                     (min (levenshtein_distance xs ((b # ys) @ [y]) + 1)
                          (levenshtein_distance (xs @ [x]) (b # ys) + 1)) + 1)
                   (min (levenshtein_distance (a # xs) ys + ?q)
                     (min (levenshtein_distance (a # xs) (ys @ [y]) + 1)
                          (levenshtein_distance ((a # xs) @ [x]) ys + 1)) + 1))"
    unfolding "3.IH" ..
  also have "\<dots> = min (min (levenshtein_distance xs ys + ?p)
                          (min (levenshtein_distance xs (b # ys) + 1) (levenshtein_distance (a # xs) ys + 1)) + ?q)
              (min (min (levenshtein_distance xs (ys @ [y]) + ?p)
                     (min (levenshtein_distance xs ((b # ys) @ [y]) + 1)
                          (levenshtein_distance (a # xs) (ys @ [y]) + 1)) + 1)
                   (min (levenshtein_distance (xs @ [x]) ys + ?p)
                     (min (levenshtein_distance (xs @ [x]) (b # ys) + 1)
                          (levenshtein_distance ((a # xs) @ [x]) ys + 1)) + 1))"
    by (rule nine_terms)
  also have "\<dots> = min (levenshtein_distance (a # xs) (b # ys) + ?q)
              (min (levenshtein_distance (a # xs) ((b # ys) @ [y]) + 1)
                   (levenshtein_distance ((a # xs) @ [x]) (b # ys) + 1))"
    by simp
  finally show ?case .
qed

lemma lev_rev: "levenshtein_distance (rev xs) (rev ys) = levenshtein_distance xs ys"
  by (induction xs ys rule: levenshtein_distance.induct) (simp_all add: lev_snoc)

lemma prefix_distance_0 [simp]:
  "prefix_distance str1 str2 0 j = min j (length str1)" "prefix_distance str1 str2 i 0 = min i (length str2)"
  by (simp_all add: prefix_distance_def min.commute)

lemma prefix_distance_step:
  assumes "i < length str2" and "j < length str1"
  shows "prefix_distance str1 str2 (Suc i) (Suc j) =
           (if str2 ! i = str1 ! j then prefix_distance str1 str2 i j
            else min (prefix_distance str1 str2 i j + 1)
                   (min (prefix_distance str1 str2 (Suc i) j + 1) (prefix_distance str1 str2 i (Suc j) + 1)))"
proof -
  have R: "levenshtein_distance (take a str2) (take b str1)
             = levenshtein_distance (rev (take a str2)) (rev (take b str1))" for a b
    by (simp add: lev_rev)
  have hi: "rev (take (Suc i) str2) = str2 ! i # rev (take i str2)"
    using assms(1) by (simp add: take_Suc_conv_app_nth)
  have hj: "rev (take (Suc j) str1) = str1 ! j # rev (take j str1)"
    using assms(2) by (simp add: take_Suc_conv_app_nth)
  show ?thesis
  proof (cases "str2 ! i = str1 ! j")
    case True
    then show ?thesis
      unfolding prefix_distance_def R hi hj by (simp add: lev_same_head del: levenshtein_distance.simps(3))
  next
    case False
    then show ?thesis
      unfolding prefix_distance_def R hi hj by (simp add: min.commute)
  qed
qed

lemma init_rows: "foldl (\<lambda>m i. array_put m i [i]) [] [0..<n] = map (\<lambda>i. [i]) [0..<n]"
  by (induction n) (simp_all add: array_put_def)

lemma init_row0:
  assumes "m \<noteq> []" and "m ! 0 = [0]"
  shows "foldl (\<lambda>m j. m[0 := array_put (m ! 0) j j]) m [0..<Suc k] = m[0 := [0..<Suc k]]"
proof (induction k)
  case 0
  show ?case using assms by (simp add: array_put_def)
next
  case (Suc k)
  have "foldl (\<lambda>m j. m[0 := array_put (m ! 0) j j]) m [0..<Suc (Suc k)]
          = (let m1 = m[0 := [0..<Suc k]] in m1[0 := array_put (m1 ! 0) (Suc k) (Suc k)])"
    using Suc.IH by (simp add: Let_def)
  also have "\<dots> = m[0 := [0..<Suc (Suc k)]]"
    using assms(1) by (simp add: Let_def array_put_def)
  finally show ?case .
qed

lemma initMatrix_rows:
  "initMatrix len1 len2 = [0..<len1 + 1] # map (\<lambda>i. [i]) [1..<len2 + 1]"
proof -
  have "initMatrix len1 len2 = (map (\<lambda>i. [i]) [0..<len2 + 1])[0 := [0..<len1 + 1]]"
    unfolding initMatrix_def Let_def init_rows
    using init_row0 [of "map (\<lambda>i. [i]) [0..<len2 + 1]" len1]
    by (simp add: upt_conv_Cons del: upt_Suc)
  then show ?thesis
    by (simp add: upt_conv_Cons del: upt_Suc)
qed

lemma fill_row:
  assumes i: "1 \<le> i" "i < length m" "i \<le> length str2"
      and above: "m ! (i - 1) = map (prefix_distance str1 str2 (i - 1)) [0..<length str1 + 1]"
      and here: "m ! i = [i]"
      and p: "p \<le> length str1"
  shows "foldl (\<lambda>m j. fillCell str1 str2 m i j) m [1..<p + 1]
           = m[i := map (prefix_distance str1 str2 i) [0..<p + 1]]"
  using p
proof (induction p)
  case 0
  have "m[i := [i]] = m" using here by (metis list_update_id)
  then show ?case using i by simp
next
  case (Suc p)
  let ?D = "prefix_distance str1 str2"
  let ?m1 = "m[i := map (?D i) [0..<p + 1]]"
  have IH: "foldl (\<lambda>m j. fillCell str1 str2 m i j) m [1..<p + 1] = ?m1"
    using Suc by simp
  have p1: "p < length str1" using Suc.prems by simp
  obtain i' where i': "i = Suc i'" using i(1) by (cases i) auto
  have i'2: "i' < length str2" using i(3) i' by simp
  have row: "?m1 ! i = map (?D i) [0..<p + 1]" using i(2) by simp
  have prev: "?m1 ! (i - 1) = map (?D (i - 1)) [0..<length str1 + 1]"
    using above i' by simp
  have c1: "?m1 ! (i - 1) ! p = ?D i' p"
    unfolding prev using p1 i' by (simp add: nth_append del: upt_Suc)
  have c2: "?m1 ! i ! p = ?D i p"
    unfolding row by (simp add: nth_append del: upt_Suc)
  have c3: "?m1 ! (i - 1) ! Suc p = ?D i' (Suc p)"
    unfolding prev using p1 i' by (simp add: nth_append del: upt_Suc)
  have v: "(if str2 ! (i - 1) = str1 ! (Suc p - 1) then ?m1 ! (i - 1) ! (Suc p - 1)
            else min (?m1 ! (i - 1) ! (Suc p - 1) + 1)
                   (min (?m1 ! i ! (Suc p - 1) + 1) (?m1 ! (i - 1) ! Suc p + 1)))
           = ?D i (Suc p)"
    using prefix_distance_step [OF i'2 p1] c1 c2 c3 by (simp add: i')
  have "fillCell str1 str2 ?m1 i (Suc p) = ?m1[i := array_put (?m1 ! i) (Suc p) (?D i (Suc p))]"
    by (simp only: fillCell_def v)
  also have "\<dots> = ?m1[i := map (?D i) [0..<p + 1] @ [?D i (Suc p)]]"
    unfolding row by (simp add: array_put_def)
  also have "\<dots> = m[i := map (?D i) [0..<Suc p + 1]]"
    by simp
  finally have step: "fillCell str1 str2 ?m1 i (Suc p) = m[i := map (?D i) [0..<Suc p + 1]]" .
  have "foldl (\<lambda>m j. fillCell str1 str2 m i j) m [1..<Suc p + 1]
          = fillCell str1 str2 (foldl (\<lambda>m j. fillCell str1 str2 m i j) m [1..<p + 1]) i (Suc p)"
    by simp
  then show ?case unfolding IH step .
qed

lemma fill_rows:
  assumes "k \<le> length str2"
  shows "(let m = foldl (\<lambda>m i. foldl (\<lambda>m j. fillCell str1 str2 m i j) m [1..<length str1 + 1])
                    (initMatrix (length str1) (length str2)) [1..<k + 1]
          in length m = length str2 + 1
           \<and> (\<forall>i \<le> k. m ! i = map (prefix_distance str1 str2 i) [0..<length str1 + 1])
           \<and> (\<forall>i. k < i \<and> i \<le> length str2 \<longrightarrow> m ! i = [i]))"
  using assms
proof (induction k)
  case 0
  have "map (\<lambda>a. min a (length str1)) [0..<Suc (length str1)] = [0..<Suc (length str1)]"
    by (intro nth_equalityI) (simp_all del: upt_Suc)
  then show ?case
    by (auto simp: initMatrix_rows nth_Cons Let_def simp del: upt_Suc split: nat.splits)
next
  case (Suc k)
  let ?row = "\<lambda>m i. foldl (\<lambda>m j. fillCell str1 str2 m i j) m [1..<length str1 + 1]"
  let ?m = "foldl ?row (initMatrix (length str1) (length str2)) [1..<k + 1]"
  have IH: "length ?m = length str2 + 1"
    "\<And>i. i \<le> k \<Longrightarrow> ?m ! i = map (prefix_distance str1 str2 i) [0..<length str1 + 1]"
    "\<And>i. k < i \<Longrightarrow> i \<le> length str2 \<Longrightarrow> ?m ! i = [i]"
    using Suc by (simp_all add: Let_def)
  have "foldl ?row (initMatrix (length str1) (length str2)) [1..<Suc k + 1] = ?row ?m (Suc k)"
    by simp
  also have "\<dots> = ?m[Suc k := map (prefix_distance str1 str2 (Suc k)) [0..<length str1 + 1]]"
    using Suc.prems IH(1) IH(2) [of k] IH(3) [of "Suc k"]
    by (intro fill_row) simp_all
  finally have eq: "foldl ?row (initMatrix (length str1) (length str2)) [1..<Suc k + 1]
      = ?m[Suc k := map (prefix_distance str1 str2 (Suc k)) [0..<length str1 + 1]]" .
  show ?case
    unfolding eq Let_def
    using IH Suc.prems by (auto simp: nth_list_update less_Suc_eq_le simp del: upt_Suc)
qed

lemma fillMatrix_distance:
  "fillMatrix str1 str2 (initMatrix (length str1) (length str2)) ! length str2 ! length str1
     = levenshtein_distance str1 str2"
proof -
  have "fillMatrix str1 str2 (initMatrix (length str1) (length str2)) ! length str2
          = map (prefix_distance str1 str2 (length str2)) [0..<length str1 + 1]"
    using fill_rows [of "length str2" str2 str1] by (simp add: fillMatrix_def Let_def)
  then have "fillMatrix str1 str2 (initMatrix (length str1) (length str2)) ! length str2 ! length str1
          = prefix_distance str1 str2 (length str2) (length str1)"
    by (simp add: nth_append del: upt_Suc)
  then show ?thesis
    by (simp add: prefix_distance_def lev_sym)
qed

text \<open>
  C8. For strings that are not both empty, \<^verbatim>\<open>calculateSimilarity\<close> is one minus the
  Levenshtein distance over the longer length (for two empty strings the quotient is not
  defined, and the function returns 0); it is symmetric, it is 1 on identical non-empty
  strings, and it is 0 when either string is empty.
\<close>

theorem calculateSimilarity_formula:
  "(str1 \<noteq> [] \<or> str2 \<noteq> [] \<longrightarrow>
      calculateSimilarity str1 str2
        = 1 - real (levenshtein_distance str1 str2) / real (max (length str1) (length str2)))
   \<and> calculateSimilarity str1 str2 = calculateSimilarity str2 str1
   \<and> (str1 \<noteq> [] \<longrightarrow> calculateSimilarity str1 str1 = 1)
   \<and> (str1 = [] \<or> str2 = [] \<longrightarrow> calculateSimilarity str1 str2 = 0)"
proof -
  have full: "calculateSimilarity a b
                = 1 - real (levenshtein_distance a b) / real (max (length a) (length b))"
    if "a \<noteq> []" "b \<noteq> []" for a b :: "'a list"
    using that by (simp add: calculateSimilarity_def Let_def fillMatrix_distance)
  have empty: "calculateSimilarity a b = 0" if "a = [] \<or> b = []" for a b :: "'a list"
    using that by (auto simp: calculateSimilarity_def Let_def)
  have formula: "calculateSimilarity a b
                = 1 - real (levenshtein_distance a b) / real (max (length a) (length b))"
    if "a \<noteq> [] \<or> b \<noteq> []" for a b :: "'a list"
  proof (cases "a = [] \<or> b = []")
    case True
    with that show ?thesis by (auto simp: empty)
  next
    case False
    then show ?thesis by (simp add: full)
  qed
  have sym: "calculateSimilarity str1 str2 = calculateSimilarity str2 str1"
  proof (cases "str1 = [] \<or> str2 = []")
    case True
    then show ?thesis by (auto simp: empty)
  next
    case False
    then show ?thesis by (simp add: full lev_sym [of str1 str2] max.commute)
  qed
  have same: "calculateSimilarity str1 str1 = 1" if "str1 \<noteq> []"
    using that by (simp add: full lev_refl)
  show ?thesis
    using formula [of str1 str2] sym same empty [of str1 str2] by blast
qed

text \<open>The witness: the spec's two examples, and a pair at distance 1.\<close>

theorem calculateSimilarity_formula_witness:
  "''vaccination schedule'' \<noteq> []
   \<and> calculateSimilarity ''vaccination schedule'' ''vaccination schedule'' = 1
   \<and> calculateSimilarity [] ''anything'' = 0
   \<and> calculateSimilarity ''cat'' ''cut'' = 2 / 3
   \<and> calculateSimilarity ''cut'' ''cat'' = 2 / 3"
proof -
  have a: "calculateSimilarity ''vaccination schedule'' ''vaccination schedule'' = 1"
    using calculateSimilarity_formula [of "''vaccination schedule''" "''vaccination schedule''",
            THEN conjunct2, THEN conjunct2, THEN conjunct1]
    by simp
  have b: "calculateSimilarity [] ''anything'' = 0"
    using calculateSimilarity_formula [of "[]" "''anything''", THEN conjunct2, THEN conjunct2, THEN conjunct2]
    by simp
  have c: "calculateSimilarity ''cat'' ''cut'' = 2 / 3"
    using calculateSimilarity_formula [of "''cat''" "''cut''", THEN conjunct1] by simp
  have d: "calculateSimilarity ''cut'' ''cat'' = 2 / 3"
    using calculateSimilarity_formula [of "''cat''" "''cut''", THEN conjunct2, THEN conjunct1] c by simp
  show ?thesis
    using a b c d by simp
qed


section \<open>Properties of validateDateTime\<close>

lemma setHours_time_of_day:
  assumes "0 \<le> h * hour_ms + m * minute_ms" and "h * hour_ms + m * minute_ms < day_ms"
  shows "setHours t h m 0 0 mod day_ms = h * hour_ms + m * minute_ms"
    and "setHours t h m 0 0 div day_ms = t div day_ms"
proof -
  have e: "setHours t h m 0 0 = day_ms * (t div day_ms) + (h * hour_ms + m * minute_ms)"
    by (simp add: setHours_def minus_mod_eq_mult_div)
  show "setHours t h m 0 0 mod day_ms = h * hour_ms + m * minute_ms"
    unfolding e using assms by simp
  have "0 < day_ms" by (simp add: day_ms_def)
  then show "setHours t h m 0 0 div day_ms = t div day_ms"
    unfolding e using assms by (simp add: div_pos_pos_trivial)
qed

lemma setHours_two_hours_on:
  "setHours t (getHours t + 2) 0 0 0 = t - t mod hour_ms + 2 * hour_ms"
proof -
  have d: "hour_ms dvd day_ms" by (simp add: hour_ms_def day_ms_def)
  have "(t mod day_ms) div hour_ms * hour_ms = t mod day_ms - (t mod day_ms) mod hour_ms"
    by (simp add: minus_mod_eq_div_mult)
  also have "\<dots> = t mod day_ms - t mod hour_ms"
    using d by (simp add: mod_mod_cancel)
  finally show ?thesis
    by (simp add: setHours_def getHours_def algebra_simps)
qed

lemma addDays_day: "addDays t n div day_ms = t div day_ms + n"
  by (simp add: addDays_def day_ms_def)

text \<open>
  C9 (what the code does). Let \<^verbatim>\<open>validateDateTime\<close> accept a string in which the time
  pattern (a number with am or pm) finds no match. If the string contains "tomorrow", or
  contains "next" and the name of a weekday, the resolved instant is at 10:00 exactly,
  and for "tomorrow" it falls on the calendar day after the current one, as claimed. If
  the string contains "today" and neither "tomorrow" nor "next", the line commented
  \<^verbatim>\<open>// 2 hours from now\<close> runs \<^verbatim>\<open>setHours(getHours() + 2, 0, 0, 0)\<close>, which clears the
  minutes, the seconds and the milliseconds: the resolved instant is two hours after the
  start of the current hour, and it is two hours from now only when now is on the full
  hour.
\<close>

theorem validateDateTime_defaults:
  assumes ok: "validateDateTime pf now s = Valid d formatted"
      and plain: "match_time (trim (toLowerCase s)) = None"
  shows "(includesStr (trim (toLowerCase s)) ''tomorrow''
            \<or> includesStr (trim (toLowerCase s)) ''next'' \<and> targetDay (trim (toLowerCase s)) \<noteq> None
          \<longrightarrow> d mod day_ms = 10 * hour_ms)
       \<and> (includesStr (trim (toLowerCase s)) ''tomorrow'' \<longrightarrow> d div day_ms = now div day_ms + 1)
       \<and> (includesStr (trim (toLowerCase s)) ''today''
            \<and> \<not> includesStr (trim (toLowerCase s)) ''tomorrow''
            \<and> \<not> includesStr (trim (toLowerCase s)) ''next''
          \<longrightarrow> d = now - now mod hour_ms + 2 * hour_ms
              \<and> (d = now + 2 * hour_ms \<longleftrightarrow> now mod hour_ms = 0))"
proof -
  have r: "resolveDate pf now s = Some d"
    using ok by (auto simp: validateDateTime_def split: option.splits if_splits)
  have t: "requestedTime (trim (toLowerCase s)) x = None" for x
    using plain by (simp add: requestedTime_def)
  have ten: "setHours x 10 0 0 0 mod day_ms = 10 * hour_ms" "setHours x 10 0 0 0 div day_ms = x div day_ms" for x
    using setHours_time_of_day [of 10 0 x] by (simp_all add: hour_ms_def day_ms_def minute_ms_def)
  have "(includesStr (trim (toLowerCase s)) ''tomorrow''
            \<or> includesStr (trim (toLowerCase s)) ''next'' \<and> targetDay (trim (toLowerCase s)) \<noteq> None
          \<longrightarrow> d mod day_ms = 10 * hour_ms)
       \<and> (includesStr (trim (toLowerCase s)) ''tomorrow'' \<longrightarrow> d div day_ms = now div day_ms + 1)
       \<and> (includesStr (trim (toLowerCase s)) ''today''
            \<and> \<not> includesStr (trim (toLowerCase s)) ''tomorrow''
            \<and> \<not> includesStr (trim (toLowerCase s)) ''next''
          \<longrightarrow> d = now - now mod hour_ms + 2 * hour_ms)"
    using r
    by (auto simp: resolveDate_def t ten Let_def addDays_day setHours_two_hours_on split: option.splits if_splits)
  then show ?thesis by auto
qed

text \<open>
  The witness: Monday 5 January 2026 at 14:45. "tomorrow" resolves to Tuesday 10:00,
  "next friday" to Friday 10:00, "today" to 16:00, and 14:45 is not on the full hour.
\<close>

theorem validateDateTime_defaults_witness:
  "validateDateTime plainPlatform (20458 * day_ms + 14 * hour_ms + 45 * minute_ms) ''tomorrow''
     = Valid (20459 * day_ms + 10 * hour_ms) []
   \<and> match_time (trim (toLowerCase ''tomorrow'')) = None
   \<and> includesStr (trim (toLowerCase ''tomorrow'')) ''tomorrow''
   \<and> (20459 * day_ms + 10 * hour_ms) mod day_ms = 10 * hour_ms
   \<and> (20459 * day_ms + 10 * hour_ms) div day_ms = (20458 * day_ms + 14 * hour_ms + 45 * minute_ms) div day_ms + 1
   \<and> validateDateTime plainPlatform (20458 * day_ms + 14 * hour_ms + 45 * minute_ms) ''next friday''
     = Valid (20462 * day_ms + 10 * hour_ms) []
   \<and> match_time (trim (toLowerCase ''next friday'')) = None
   \<and> includesStr (trim (toLowerCase ''next friday'')) ''next''
   \<and> targetDay (trim (toLowerCase ''next friday'')) = Some 5
   \<and> (20462 * day_ms + 10 * hour_ms) mod day_ms = 10 * hour_ms
   \<and> validateDateTime plainPlatform (20458 * day_ms + 14 * hour_ms + 45 * minute_ms) ''today''
     = Valid (20458 * day_ms + 16 * hour_ms) []
   \<and> match_time (trim (toLowerCase ''today'')) = None
   \<and> includesStr (trim (toLowerCase ''today'')) ''today''
   \<and> 20458 * day_ms + 16 * hour_ms
     = (20458 * day_ms + 14 * hour_ms + 45 * minute_ms)
       - (20458 * day_ms + 14 * hour_ms + 45 * minute_ms) mod hour_ms + 2 * hour_ms
   \<and> (20458 * day_ms + 14 * hour_ms + 45 * minute_ms) mod hour_ms \<noteq> 0"
proof -
  let ?now = "20458 * day_ms + 14 * hour_ms + 45 * minute_ms"
  have a: "validateDateTime plainPlatform ?now ''tomorrow'' = Valid (20459 * day_ms + 10 * hour_ms) []"
    by code_simp
  have a': "match_time (trim (toLowerCase ''tomorrow'')) = None"
    by code_simp
  have a'': "includesStr (trim (toLowerCase ''tomorrow'')) ''tomorrow''"
    by code_simp
  have b: "validateDateTime plainPlatform ?now ''next friday'' = Valid (20462 * day_ms + 10 * hour_ms) []"
    by code_simp
  have b': "match_time (trim (toLowerCase ''next friday'')) = None"
    by code_simp
  have b'': "includesStr (trim (toLowerCase ''next friday'')) ''next''"
    "targetDay (trim (toLowerCase ''next friday'')) = Some 5"
    by code_simp+
  have c: "validateDateTime plainPlatform ?now ''today'' = Valid (20458 * day_ms + 16 * hour_ms) []"
    by code_simp
  have c': "match_time (trim (toLowerCase ''today'')) = None"
    by code_simp
  have c'': "includesStr (trim (toLowerCase ''today'')) ''today''"
    "\<not> includesStr (trim (toLowerCase ''today'')) ''tomorrow''"
    "\<not> includesStr (trim (toLowerCase ''today'')) ''next''"
    by code_simp+
  have "(20459 * day_ms + 10 * hour_ms) mod day_ms = 10 * hour_ms"
    and "(20459 * day_ms + 10 * hour_ms) div day_ms = ?now div day_ms + 1"
    using validateDateTime_defaults [OF a a'] a'' by blast+
  moreover have "(20462 * day_ms + 10 * hour_ms) mod day_ms = 10 * hour_ms"
    using validateDateTime_defaults [OF b b'] b'' by simp
  moreover have "20458 * day_ms + 16 * hour_ms = ?now - ?now mod hour_ms + 2 * hour_ms"
    using validateDateTime_defaults [OF c c'] c'' by blast
  moreover have "?now mod hour_ms \<noteq> 0"
    by (simp add: day_ms_def hour_ms_def minute_ms_def)
  ultimately show ?thesis
    using a a' a'' b b' b'' c c' c''(1) by blast
qed

text \<open>
  The failing input: at 14:45 the accepted instant for "today" is 16:00, not 16:45.
\<close>

theorem validateDateTime_today_counterexample:
  "validateDateTime plainPlatform (20458 * day_ms + 14 * hour_ms + 45 * minute_ms) ''today''
     = Valid (20458 * day_ms + 16 * hour_ms) []
   \<and> match_time (trim (toLowerCase ''today'')) = None
   \<and> includesStr (trim (toLowerCase ''today'')) ''today''
   \<and> 20458 * day_ms + 16 * hour_ms \<noteq> (20458 * day_ms + 14 * hour_ms + 45 * minute_ms) + 2 * hour_ms"
  by code_simp


section \<open>Properties of the chat controller\<close>

lemma dropWhile_keeps:
  "x \<in> set xs \<Longrightarrow> \<not> P x \<Longrightarrow> x \<in> set (dropWhile P xs)"
  by (induction xs) auto

lemma trim_nonempty:
  assumes "c \<in> set s" and "\<not> isSpace c"
  shows "trim s \<noteq> []"
proof -
  have "c \<in> set (dropWhile isSpace s)" using assms by (rule dropWhile_keeps)
  then have "c \<in> set (rev (dropWhile isSpace s))" by simp
  then have "c \<in> set (dropWhile isSpace (rev (dropWhile isSpace s)))"
    using assms(2) by (rule dropWhile_keeps)
  then have "dropWhile isSpace (rev (dropWhile isSpace s)) \<noteq> []"
    by (metis empty_iff empty_set)
  then show ?thesis
    by (simp only: trim_def rev_is_Nil_conv not_False_eq_True)
qed

lemma trim_empty_spaces:
  assumes "\<forall>c \<in> set s. isSpace c"
  shows "trim s = []"
proof -
  have "dropWhile isSpace s = []" using assms by (simp only: dropWhile_eq_Nil_conv)
  then show ?thesis by (simp only: trim_def rev.simps dropWhile.simps)
qed

lemma toLowerCase_space:
  assumes "c \<in> set (toLowerCase s)" and "\<not> isSpace c"
  shows "\<exists>c' \<in> set s. \<not> isSpace c'"
proof -
  obtain c' where c': "c' \<in> set s"
    and c: "c = (if 65 \<le> (of_char c' :: nat) \<and> (of_char c' :: nat) \<le> 90 then char_of (of_char c' + 32 :: nat) else c')"
    using assms(1) by (auto simp: toLowerCase_def)
  have "\<not> isSpace c'"
  proof
    assume sp: "isSpace c'"
    then have "c = c'" unfolding c by (auto simp: isSpace_def)
    with sp assms(2) show False by simp
  qed
  with c' show ?thesis by blast
qed

lemma includesStr_head: "includesStr s (p # ps) \<Longrightarrow> p \<in> set s"
  by (induction s) auto

lemma detectCancelIntent_not_blank:
  assumes "detectCancelIntent message"
  shows "message \<noteq> [] \<and> trim message \<noteq> []"
proof -
  obtain p ps where inc: "includesStr (toLowerCase message) (p # ps)" and p: "\<not> isSpace p"
    using assms by (auto simp: detectCancelIntent_def Let_def isSpace_def)
  have "p \<in> set (toLowerCase message)" using inc by (rule includesStr_head)
  then obtain c' where "c' \<in> set message" "\<not> isSpace c'"
    using p toLowerCase_space by blast
  then show ?thesis using trim_nonempty by fastforce
qed

lemma lowered_not_blank:
  assumes "trim (toLowerCase message) \<noteq> []"
  shows "message \<noteq> [] \<and> trim message \<noteq> []"
proof -
  have "\<not> (\<forall>c \<in> set (toLowerCase message). isSpace c)"
    using assms trim_empty_spaces by blast
  then obtain c where "c \<in> set (toLowerCase message)" "\<not> isSpace c" by blast
  then obtain c' where "c' \<in> set message" "\<not> isSpace c'"
    using toLowerCase_space by blast
  then show ?thesis using trim_nonempty by fastforce
qed

text \<open>
  C1, amended. In every booking state other than \<^verbatim>\<open>NONE\<close> and \<^verbatim>\<open>COMPLETED\<close>, a message that
  matches the cancellation lexicon makes \<^verbatim>\<open>handleMessage\<close> reset the state to \<^verbatim>\<open>NONE\<close>,
  clear the draft, save the conversation and answer with the cancellation message. It
  makes no call into the slot manager: the slot map is as before and no release is
  scheduled, so a reservation the session still holds stays until it expires.
\<close>

theorem cancel_mid_flow:
  assumes "appointmentState c \<noteq> NONE" and "appointmentState c \<noteq> COMPLETED"
      and "detectCancelIntent message" and "conversationSaves co"
  shows "handleMessage fuel pf co now bs sid (Some c) message =
           Some \<lparr>out_reply = Json sid cancelMessage NONE,
                 out_saved = Some \<lparr>messages = messages c @ [(role_user, message), (role_bot, cancelMessage)],
                                    appointmentState = NONE, appointmentData = empty_data\<rparr>,
                 out_slots = bs, out_timers = [], out_appointments = []\<rparr>"
  using assms detectCancelIntent_not_blank [of message]
  by (simp add: handleMessage_def respond_def Let_def)


text \<open>
  The witness: a session that is asked for its phone number, and holds tomorrow's 14:00
  from an earlier attempt, writes "Please cancel" on Monday 5 January 2026 at 14:48.
\<close>

theorem cancel_mid_flow_witness:
  "appointmentState \<lparr>messages = [], appointmentState = ASK_DATE_TIME, appointmentData = empty_data\<rparr> \<noteq> NONE
   \<and> appointmentState \<lparr>messages = [], appointmentState = ASK_DATE_TIME, appointmentData = empty_data\<rparr> \<noteq> COMPLETED
   \<and> detectCancelIntent ''Please cancel''
   \<and> conversationSaves \<lparr>conversationSaves = True, appointmentSaves = True, answer = Inr []\<rparr>
   \<and> handleMessage 0 plainPlatform \<lparr>conversationSaves = True, appointmentSaves = True, answer = Inr []\<rparr>
        (20458 * day_ms + 14 * hour_ms + 48 * minute_ms)
        [(20459 * day_ms + 14 * hour_ms,
          Reserved ''s1'' (20458 * day_ms + 14 * hour_ms + 51 * minute_ms) (20459 * day_ms + 14 * hour_ms))]
        ''s1'' (Some \<lparr>messages = [], appointmentState = ASK_DATE_TIME, appointmentData = empty_data\<rparr>)
        ''Please cancel''
     = Some \<lparr>out_reply = Json ''s1'' cancelMessage NONE,
             out_saved = Some \<lparr>messages = [(role_user, ''Please cancel''), (role_bot, cancelMessage)],
                                appointmentState = NONE, appointmentData = empty_data\<rparr>,
             out_slots = [(20459 * day_ms + 14 * hour_ms,
                           Reserved ''s1'' (20458 * day_ms + 14 * hour_ms + 51 * minute_ms)
                             (20459 * day_ms + 14 * hour_ms))],
             out_timers = [], out_appointments = []\<rparr>"
proof -
  let ?c = "\<lparr>messages = [], appointmentState = ASK_DATE_TIME, appointmentData = empty_data\<rparr>"
  let ?co = "\<lparr>conversationSaves = True, appointmentSaves = True, answer = Inr []\<rparr>"
  have a: "appointmentState ?c \<noteq> NONE" and b: "appointmentState ?c \<noteq> COMPLETED"
    by simp_all
  have d: "detectCancelIntent ''Please cancel''"
    by code_simp
  have e: "conversationSaves ?co"
    by simp
  show ?thesis
    using a b d e cancel_mid_flow [OF a b d e, of 0 plainPlatform "20458 * day_ms + 14 * hour_ms + 48 * minute_ms"
        "[(20459 * day_ms + 14 * hour_ms,
          Reserved ''s1'' (20458 * day_ms + 14 * hour_ms + 51 * minute_ms) (20459 * day_ms + 14 * hour_ms))]"
        "''s1''"]
    by simp
qed

text \<open>
  The claim as written fails where it promises the release. On Monday 5 January 2026,
  from 14:45, session s1 books up to the confirmation question for "tomorrow at 2pm",
  answers "no", and starts again: it is asked for the owner's name while its
  reservation of Tuesday 14:00, made at 14:46, runs until 14:51. At 14:48 it writes
  "cancel": the state is \<^verbatim>\<open>NONE\<close> and the reservation is still in the map, unexpired.
\<close>

theorem cancel_mid_flow_counterexample:
  "map_option (\<lambda>r. (map_option appointmentState (fst r), snd r))
     (dialogue 1 plainPlatform \<lparr>conversationSaves = True, appointmentSaves = True, answer = Inr []\<rparr>
        ''s1'' None []
        [(20458 * day_ms + 14 * hour_ms + 45 * minute_ms, ''I want to book an appointment''),
         (20458 * day_ms + 14 * hour_ms + 45 * minute_ms, ''Jane Doe''),
         (20458 * day_ms + 14 * hour_ms + 45 * minute_ms, ''Rex''),
         (20458 * day_ms + 14 * hour_ms + 45 * minute_ms, ''555-123-4567''),
         (20458 * day_ms + 14 * hour_ms + 46 * minute_ms, ''tomorrow at 2pm''),
         (20458 * day_ms + 14 * hour_ms + 47 * minute_ms, ''no''),
         (20458 * day_ms + 14 * hour_ms + 47 * minute_ms, ''book an appointment'')])
     = Some (Some ASK_PET_NAME,
             [(20459 * day_ms + 14 * hour_ms,
               Reserved ''s1'' (20458 * day_ms + 14 * hour_ms + 51 * minute_ms) (20459 * day_ms + 14 * hour_ms))])
   \<and> detectCancelIntent ''cancel''
   \<and> map_option (\<lambda>r. (map_option appointmentState (fst r), snd r))
     (dialogue 1 plainPlatform \<lparr>conversationSaves = True, appointmentSaves = True, answer = Inr []\<rparr>
        ''s1'' None []
        [(20458 * day_ms + 14 * hour_ms + 45 * minute_ms, ''I want to book an appointment''),
         (20458 * day_ms + 14 * hour_ms + 45 * minute_ms, ''Jane Doe''),
         (20458 * day_ms + 14 * hour_ms + 45 * minute_ms, ''Rex''),
         (20458 * day_ms + 14 * hour_ms + 45 * minute_ms, ''555-123-4567''),
         (20458 * day_ms + 14 * hour_ms + 46 * minute_ms, ''tomorrow at 2pm''),
         (20458 * day_ms + 14 * hour_ms + 47 * minute_ms, ''no''),
         (20458 * day_ms + 14 * hour_ms + 47 * minute_ms, ''book an appointment''),
         (20458 * day_ms + 14 * hour_ms + 48 * minute_ms, ''cancel'')])
     = Some (Some NONE,
             [(20459 * day_ms + 14 * hour_ms,
               Reserved ''s1'' (20458 * day_ms + 14 * hour_ms + 51 * minute_ms) (20459 * day_ms + 14 * hour_ms))])
   \<and> live (20458 * day_ms + 14 * hour_ms + 48 * minute_ms)
        (Reserved ''s1'' (20458 * day_ms + 14 * hour_ms + 51 * minute_ms) (20459 * day_ms + 14 * hour_ms))"
  by code_simp

lemma isSlotBooked_live_reservation:
  "map_of bs k = Some (Reserved s e d) \<Longrightarrow> \<not> e < now \<Longrightarrow> isSlotBooked now bs k = (True, bs)"
  by (simp add: isSlotBooked_def)

lemma checkAvailability_taken:
  assumes "isSlotBooked now bs (getSlotKey t) = (True, bs1)"
      and "checkAvailability fuel pf now bs t = Some (p, bs')"
  shows "\<not> available (await p)"
proof (cases fuel)
  case 0
  with assms show ?thesis by (simp add: checkAvailability.simps)
next
  case (Suc f)
  show ?thesis
    using assms(2) unfolding Suc
    by (subst (asm) checkAvailability.simps) (auto simp: assms(1) split: if_splits option.splits)
qed

text \<open>
  C10. In state \<^verbatim>\<open>COMPLETED\<close> the answers "no", "cancel" and "n" make \<^verbatim>\<open>handleMessage\<close>
  reset the state to \<^verbatim>\<open>NONE\<close> and clear the draft, with no call into the slot manager:
  the slot map is as before and nothing is scheduled. A reservation in it therefore
  keeps \<^verbatim>\<open>isSlotBooked\<close> true, and keeps \<^verbatim>\<open>checkAvailability\<close> from reporting its slot
  available, for every caller and for as long as its expiry has not passed; once it has
  passed, \<^verbatim>\<open>isSlotBooked\<close> is false.
\<close>

theorem completed_no_keeps_reservation:
  assumes "appointmentState c = COMPLETED"
      and "trim (toLowerCase message) = ''no'' \<or> trim (toLowerCase message) = ''cancel''
             \<or> trim (toLowerCase message) = ''n''"
      and "conversationSaves co"
  shows "handleMessage fuel pf co now bs sid (Some c) message =
           Some \<lparr>out_reply = Json sid ''Appointment booking cancelled. How can I help you with your pet's needs?''
                               COMPLETED,
                 out_saved = Some \<lparr>messages = messages c @ [(role_user, message),
                                      (role_bot, ''Appointment booking cancelled. How can I help you with your pet's needs?'')],
                                    appointmentState = NONE, appointmentData = empty_data\<rparr>,
                 out_slots = bs, out_timers = [], out_appointments = []\<rparr>
       \<and> (\<forall>k s e d later. map_of bs k = Some (Reserved s e d) \<and> \<not> e < later \<longrightarrow>
             isSlotBooked later bs k = (True, bs))
       \<and> (\<forall>s e d later t fuel' pf'.
             map_of bs (getSlotKey t) = Some (Reserved s e d) \<and> \<not> e < later \<longrightarrow>
             map_option (\<lambda>r. available (await (fst r))) (checkAvailability fuel' pf' later bs t) \<noteq> Some True)
       \<and> (\<forall>k s e d later. map_of bs k = Some (Reserved s e d) \<and> e < later \<longrightarrow>
             fst (isSlotBooked later bs k) = False)"
proof -
  have nb: "message \<noteq> [] \<and> trim message \<noteq> []"
    using assms(2) by (intro lowered_not_blank) auto
  have "handleMessage fuel pf co now bs sid (Some c) message =
           Some \<lparr>out_reply = Json sid ''Appointment booking cancelled. How can I help you with your pet's needs?''
                               COMPLETED,
                 out_saved = Some \<lparr>messages = messages c @ [(role_user, message),
                                      (role_bot, ''Appointment booking cancelled. How can I help you with your pet's needs?'')],
                                    appointmentState = NONE, appointmentData = empty_data\<rparr>,
                 out_slots = bs, out_timers = [], out_appointments = []\<rparr>"
    using assms nb
    by (auto simp: handleMessage_def handleCompleted_def respond_def Let_def)
  moreover have "\<forall>k s e d later. map_of bs k = Some (Reserved s e d) \<and> \<not> e < later \<longrightarrow>
             isSlotBooked later bs k = (True, bs)"
    by (simp add: isSlotBooked_live_reservation)
  moreover have "\<forall>s e d later t fuel' pf'.
             map_of bs (getSlotKey t) = Some (Reserved s e d) \<and> \<not> e < later \<longrightarrow>
             map_option (\<lambda>r. available (await (fst r))) (checkAvailability fuel' pf' later bs t) \<noteq> Some True"
  proof (intro allI impI)
    fix s e d later t fuel' pf'
    assume h: "map_of bs (getSlotKey t) = Some (Reserved s e d) \<and> \<not> e < later"
    then have b: "isSlotBooked later bs (getSlotKey t) = (True, bs)"
      by (simp add: isSlotBooked_live_reservation)
    show "map_option (\<lambda>r. available (await (fst r))) (checkAvailability fuel' pf' later bs t) \<noteq> Some True"
    proof (cases "checkAvailability fuel' pf' later bs t")
      case None
      then show ?thesis by simp
    next
      case (Some r)
      then have "\<not> available (await (fst r))"
        using checkAvailability_taken [OF b, of fuel' pf' "fst r" "snd r"] by simp
      with Some show ?thesis by simp
    qed
  qed
  moreover have "\<forall>k s e d later. map_of bs k = Some (Reserved s e d) \<and> e < later \<longrightarrow>
             fst (isSlotBooked later bs k) = False"
    by (simp add: isSlotBooked_def)
  ultimately show ?thesis by blast
qed

text \<open>
  The witness: session s1 has been shown its summary for Tuesday 14:00, reserved until
  14:51 on Monday 5 January 2026, and answers "No" at 14:47. At 14:50 the slot is still
  booked and a check of Tuesday 14:10 does not report it available; at 14:52 it is free.
\<close>

theorem completed_no_keeps_reservation_witness:
  "appointmentState \<lparr>messages = [], appointmentState = COMPLETED,
      appointmentData = empty_data\<lparr>slotKey := Some (20459 * day_ms + 14 * hour_ms)\<rparr>\<rparr> = COMPLETED
   \<and> trim (toLowerCase '' No '') = ''no''
   \<and> map_option (\<lambda>out. (map_option appointmentState (out_saved out), map_option appointmentData (out_saved out),
                        out_slots out, out_timers out))
       (handleMessage 0 plainPlatform \<lparr>conversationSaves = True, appointmentSaves = True, answer = Inr []\<rparr>
          (20458 * day_ms + 14 * hour_ms + 47 * minute_ms)
          [(20459 * day_ms + 14 * hour_ms,
            Reserved ''s1'' (20458 * day_ms + 14 * hour_ms + 51 * minute_ms) (20459 * day_ms + 14 * hour_ms))]
          ''s1''
          (Some \<lparr>messages = [], appointmentState = COMPLETED,
                  appointmentData = empty_data\<lparr>slotKey := Some (20459 * day_ms + 14 * hour_ms)\<rparr>\<rparr>)
          '' No '')
     = Some (Some NONE, Some empty_data,
             [(20459 * day_ms + 14 * hour_ms,
               Reserved ''s1'' (20458 * day_ms + 14 * hour_ms + 51 * minute_ms) (20459 * day_ms + 14 * hour_ms))],
             [])
   \<and> isSlotBooked (20458 * day_ms + 14 * hour_ms + 50 * minute_ms)
        [(20459 * day_ms + 14 * hour_ms,
          Reserved ''s1'' (20458 * day_ms + 14 * hour_ms + 51 * minute_ms) (20459 * day_ms + 14 * hour_ms))]
        (20459 * day_ms + 14 * hour_ms)
     = (True, [(20459 * day_ms + 14 * hour_ms,
          Reserved ''s1'' (20458 * day_ms + 14 * hour_ms + 51 * minute_ms) (20459 * day_ms + 14 * hour_ms))])
   \<and> map_option (\<lambda>r. available (await (fst r)))
        (checkAvailability 1 plainPlatform (20458 * day_ms + 14 * hour_ms + 50 * minute_ms)
           [(20459 * day_ms + 14 * hour_ms,
             Reserved ''s1'' (20458 * day_ms + 14 * hour_ms + 51 * minute_ms) (20459 * day_ms + 14 * hour_ms))]
           (20459 * day_ms + 14 * hour_ms + 10 * minute_ms)) \<noteq> Some True
   \<and> fst (isSlotBooked (20458 * day_ms + 14 * hour_ms + 52 * minute_ms)
        [(20459 * day_ms + 14 * hour_ms,
          Reserved ''s1'' (20458 * day_ms + 14 * hour_ms + 51 * minute_ms) (20459 * day_ms + 14 * hour_ms))]
        (20459 * day_ms + 14 * hour_ms)) = False"
proof -
  let ?c = "\<lparr>messages = [], appointmentState = COMPLETED,
      appointmentData = empty_data\<lparr>slotKey := Some (20459 * day_ms + 14 * hour_ms)\<rparr>\<rparr>"
  let ?co = "\<lparr>conversationSaves = True, appointmentSaves = True, answer = Inr []\<rparr>"
  let ?bs = "[(20459 * day_ms + 14 * hour_ms,
            Reserved ''s1'' (20458 * day_ms + 14 * hour_ms + 51 * minute_ms) (20459 * day_ms + 14 * hour_ms))]"
  have a: "appointmentState ?c = COMPLETED"
    by simp
  have n: "trim (toLowerCase '' No '') = ''no''"
    by code_simp
  have b: "trim (toLowerCase '' No '') = ''no'' \<or> trim (toLowerCase '' No '') = ''cancel''
             \<or> trim (toLowerCase '' No '') = ''n''"
    using n by simp
  have e: "conversationSaves ?co"
    by simp
  note T = completed_no_keeps_reservation [OF a b e, of 0 plainPlatform "20458 * day_ms + 14 * hour_ms + 47 * minute_ms"
             ?bs "''s1''"]
  have k: "getSlotKey (20459 * day_ms + 14 * hour_ms + 10 * minute_ms) = 20459 * day_ms + 14 * hour_ms"
    by (simp add: getSlotKey_def clock_defs)
  have m: "map_of ?bs (20459 * day_ms + 14 * hour_ms)
             = Some (Reserved ''s1'' (20458 * day_ms + 14 * hour_ms + 51 * minute_ms) (20459 * day_ms + 14 * hour_ms))"
    by simp
  have l: "\<not> 20458 * day_ms + 14 * hour_ms + 51 * minute_ms < 20458 * day_ms + 14 * hour_ms + 50 * minute_ms"
    and x: "20458 * day_ms + 14 * hour_ms + 51 * minute_ms < 20458 * day_ms + 14 * hour_ms + 52 * minute_ms"
    by (simp_all add: clock_defs)
  have r1: "map_option (\<lambda>out. (map_option appointmentState (out_saved out), map_option appointmentData (out_saved out),
                        out_slots out, out_timers out))
       (handleMessage 0 plainPlatform ?co (20458 * day_ms + 14 * hour_ms + 47 * minute_ms) ?bs ''s1'' (Some ?c) '' No '')
     = Some (Some NONE, Some empty_data, ?bs, [])"
    using T by simp
  have r2: "isSlotBooked (20458 * day_ms + 14 * hour_ms + 50 * minute_ms) ?bs (20459 * day_ms + 14 * hour_ms)
              = (True, ?bs)"
    using T m l by blast
  have r3: "map_option (\<lambda>r. available (await (fst r)))
        (checkAvailability 1 plainPlatform (20458 * day_ms + 14 * hour_ms + 50 * minute_ms) ?bs
           (20459 * day_ms + 14 * hour_ms + 10 * minute_ms)) \<noteq> Some True"
    using T m l k by metis
  have r4: "fst (isSlotBooked (20458 * day_ms + 14 * hour_ms + 52 * minute_ms) ?bs (20459 * day_ms + 14 * hour_ms)) = False"
    using T m x by blast
  show ?thesis
    using a n r1 r2 r3 r4 by blast
qed

end
